theory Spec2Isabelle
  imports Main "HOL-Library.Sublist"
begin

section \<open>Python values, exceptions and string primitives\<close>

text \<open>
  The framework passes dynamically typed values around (\<^verbatim>\<open>Dict[str, Any]\<close>): memory
  records, step records, tool results, decision payloads. They are modelled by one
  datatype of Python values. A dictionary with string keys is an association list in
  insertion order.
\<close>

datatype pyval =
    VNone
  | VStr string
  | VInt int
  | VList "pyval list"
  | VDict "(string \<times> pyval) list"

type_synonym pydict = "(string \<times> pyval) list"

text \<open>\<^verbatim>\<open>key in d\<close> for a dictionary \<open>d\<close>.\<close>

definition has_key :: "pydict \<Rightarrow> string \<Rightarrow> bool" where
  "has_key d k = (map_of d k \<noteq> None)"

text \<open>
  A raised exception object: \<open>Exc cls r\<close> is an instance of class \<open>cls\<close> that derives
  from \<^verbatim>\<open>Exception\<close>, and \<open>BaseExc cls r\<close> one that derives from \<^verbatim>\<open>BaseException\<close>
  only (\<^verbatim>\<open>KeyboardInterrupt\<close>, \<^verbatim>\<open>SystemExit\<close>, \<^verbatim>\<open>GeneratorExit\<close>). In both, \<open>r\<close> is
  what evaluating \<^verbatim>\<open>str(e)\<close> does: the class may define its own \<^verbatim>\<open>__str__\<close>, so
  \<^verbatim>\<open>str(e)\<close> either returns a string or raises an exception of its own.
\<close>

datatype py_exception =
    Exc string str_result
  | BaseExc string str_result
and str_result =
    StrReturns string
  | StrRaises py_exception

fun is_Exception :: "py_exception \<Rightarrow> bool" where
  "is_Exception (Exc cls s) = True"
| "is_Exception (BaseExc cls s) = False"

fun exc_str :: "py_exception \<Rightarrow> str_result" where
  "exc_str (Exc cls s) = s"
| "exc_str (BaseExc cls s) = s"

fun exc_class :: "py_exception \<Rightarrow> string" where
  "exc_class (Exc cls s) = cls"
| "exc_class (BaseExc cls s) = cls"

text \<open>
  Python's built-in \<^verbatim>\<open>repr\<close> is not part of the repository; the functions that format
  a value take it as the parameter \<open>repr\<close>. \<^verbatim>\<open>str(v)\<close> is the string itself on a
  string and \<^verbatim>\<open>repr(v)\<close> on the other values modelled here.
\<close>

definition py_str :: "(pyval \<Rightarrow> string) \<Rightarrow> pyval \<Rightarrow> string" where
  "py_str repr v = (case v of VStr s \<Rightarrow> s | _ \<Rightarrow> repr v)"

text \<open>
  \<^verbatim>\<open>KeyError(msg)\<close> with a single argument: \<^verbatim>\<open>str(e)\<close> returns \<^verbatim>\<open>repr(msg)\<close>.
\<close>

definition KeyError :: "(pyval \<Rightarrow> string) \<Rightarrow> string \<Rightarrow> py_exception" where
  "KeyError repr msg = Exc ''KeyError'' (StrReturns (repr (VStr msg)))"

text \<open>
  Strings are lists of characters, a character standing for a code point below 256.
  \<^verbatim>\<open>str.isspace\<close> holds on that range for the code points 9 to 13, 28 to 32, 133
  and 160; \<^verbatim>\<open>str.strip()\<close> and \<^verbatim>\<open>str.split()\<close> use the same notion of whitespace.
\<close>

definition isspace :: "char \<Rightarrow> bool" where
  "isspace c = ((of_char c :: nat) \<in> {9, 10, 11, 12, 13, 28, 29, 30, 31, 32, 133, 160})"

definition strip :: "string \<Rightarrow> string" where
  "strip s = rev (dropWhile isspace (rev (dropWhile isspace s)))"

text \<open>
  \<^verbatim>\<open>str.upper()\<close> on the ASCII letters. The source only compares the result with the
  ASCII literal \<^verbatim>\<open>"ANSWER:"\<close>, and the upper-case forms of the other code points
  below 256 (\<^verbatim>\<open>SS\<close> for the sharp s among them) cannot take part in a match of that
  literal, so these code points are left as they are.
\<close>

definition upper_char :: "char \<Rightarrow> char" where
  "upper_char c =
     (case map_of (zip ''abcdefghijklmnopqrstuvwxyz'' ''ABCDEFGHIJKLMNOPQRSTUVWXYZ'') c of
        None \<Rightarrow> c
      | Some u \<Rightarrow> u)"

definition upper :: "string \<Rightarrow> string" where
  "upper s = map upper_char s"

definition startswith :: "string \<Rightarrow> string \<Rightarrow> bool" where
  "startswith s p = (take (length p) s = p)"

text \<open>
  \<^verbatim>\<open>s.split(maxsplit=n)\<close> with no separator: up to \<open>n\<close> times, skip whitespace and cut
  the next run of non-whitespace characters; when \<open>n\<close> fields have been cut, skip
  whitespace once more and keep what is left, if anything, as the last field.
\<close>

fun split_whitespace :: "nat \<Rightarrow> string \<Rightarrow> string list" where
  "split_whitespace 0 s =
     (let r = dropWhile isspace s in if r = [] then [] else [r])"
| "split_whitespace (Suc n) s =
     (let r = dropWhile isspace s in
      if r = [] then []
      else takeWhile (\<lambda>c. \<not> isspace c) r
             # split_whitespace n (dropWhile (\<lambda>c. \<not> isspace c) r))"

section \<open>Memory\<close>

record Memory =
  store :: "pydict list"

definition Memory_init :: Memory where
  "Memory_init = \<lparr>store = []\<rparr>"

definition Memory_add :: "Memory \<Rightarrow> pydict \<Rightarrow> Memory" where
  "Memory_add m item = m\<lparr>store := store m @ [item]\<rparr>"

definition Memory_query :: "Memory \<Rightarrow> string option \<Rightarrow> pydict list" where
  "Memory_query m key =
     (case key of
        None \<Rightarrow> store m
      | Some k \<Rightarrow> filter (\<lambda>s. has_key s k) (store m))"

section \<open>KGExecutor\<close>

record KGExecutor =
  graph :: pyval

definition KGExecutor_init :: KGExecutor where
  "KGExecutor_init = \<lparr>graph = VNone\<rparr>"

definition load_graph :: "KGExecutor \<Rightarrow> string \<Rightarrow> py_exception + unit" where
  "load_graph ex source = Inl (Exc ''NotImplementedError'' (StrReturns ''KG loading not implemented''))"

definition KGExecutor_query :: "KGExecutor \<Rightarrow> string \<Rightarrow> pydict list" where
  "KGExecutor_query ex sparql = []"

definition execute_program :: "KGExecutor \<Rightarrow> pyval \<Rightarrow> pyval" where
  "execute_program ex program = VNone"

section \<open>Toolbox\<close>

text \<open>
  A tool is a Python callable: it takes positional and keyword arguments, may change
  the world outside the agent (\<open>'w\<close>), and returns a value or raises.
\<close>

type_synonym 'w tool = "pyval list \<Rightarrow> pydict \<Rightarrow> 'w \<Rightarrow> (py_exception + pyval) \<times> 'w"

record 'w Toolbox =
  tools :: "pyval \<rightharpoonup> 'w tool"

definition Toolbox_init :: "'w Toolbox" where
  "Toolbox_init = \<lparr>tools = Map.empty\<rparr>"

text \<open>
  Dictionaries and lists cannot be dictionary keys: using one as a key, or testing
  whether it is one, raises \<^verbatim>\<open>TypeError\<close> with the name of its type in the message.
\<close>

fun hashable :: "pyval \<Rightarrow> bool" where
  "hashable (VList xs) = False"
| "hashable (VDict d) = False"
| "hashable v = True"

fun type_name :: "pyval \<Rightarrow> string" where
  "type_name VNone = ''NoneType''"
| "type_name (VStr s) = ''str''"
| "type_name (VInt i) = ''int''"
| "type_name (VList xs) = ''list''"
| "type_name (VDict d) = ''dict''"

definition unhashable :: "pyval \<Rightarrow> py_exception" where
  "unhashable v =
     Exc ''TypeError'' (StrReturns (''unhashable type: '' @ [CHR 0x27] @ type_name v @ [CHR 0x27]))"

definition register :: "'w Toolbox \<Rightarrow> pyval \<Rightarrow> 'w tool \<Rightarrow> py_exception + 'w Toolbox" where
  "register tb name fn =
     (if \<not> hashable name then Inl (unhashable name)
      else Inr (tb\<lparr>tools := (tools tb)(name \<mapsto> fn)\<rparr>))"

text \<open>
  \<open>call\<close> returns the tool's result (or the exception raised), the world after the
  call and the toolbox after the call.
\<close>

definition call ::
  "(pyval \<Rightarrow> string) \<Rightarrow> 'w Toolbox \<Rightarrow> pyval \<Rightarrow> pyval list \<Rightarrow> pydict \<Rightarrow> 'w
     \<Rightarrow> (py_exception + pyval) \<times> 'w \<times> 'w Toolbox" where
  "call repr tb name args kwargs w =
     (if \<not> hashable name then (Inl (unhashable name), w, tb)
      else case tools tb name of
        None \<Rightarrow>
          (Inl (KeyError repr (''Tool '' @ [CHR 0x27] @ py_str repr name @ [CHR 0x27] @ '' not registered'')),
           w, tb)
      | Some fn \<Rightarrow> (let (r, w') = fn args kwargs w in (r, w', tb)))"

section \<open>The decision parser\<close>

record decision =
  action :: string
  payload :: pyval

definition parse_llm_response :: "string \<Rightarrow> decision" where
  "parse_llm_response response =
     (let text = strip response in
      if startswith (upper text) ''ANSWER:''
      then \<lparr>action = ''answer'', payload = VStr (strip (drop (length ''ANSWER:'') text))\<rparr>
      else if startswith text ''CALL ''
      then (let parts = split_whitespace 2 text;
                tool = (if length parts > 1 then parts ! 1 else '''');
                args = (if length parts > 2 then parts ! 2 else '''')
            in \<lparr>action = ''call_tool'',
                payload = VDict [(''tool'', VStr tool), (''args'', VStr args)]\<rparr>)
      else \<lparr>action = ''run_program'', payload = VStr text\<rparr>)"

section \<open>KGAgent\<close>

text \<open>
  The language model is a callable taking the prompt and a metadata dictionary; like a
  tool it may depend on and change the outside world, and it may raise.
\<close>

type_synonym 'w llm = "string \<Rightarrow> pydict \<Rightarrow> 'w \<Rightarrow> (py_exception + string) \<times> 'w"

record 'w KGAgent =
  llm :: "'w llm"
  executor :: KGExecutor
  toolbox :: "'w Toolbox"
  memory :: Memory
  max_steps :: int

text \<open>The constructor; an omitted optional argument is \<open>None\<close>.\<close>

definition KGAgent_init ::
  "'w llm \<Rightarrow> KGExecutor option \<Rightarrow> 'w Toolbox option \<Rightarrow> Memory option \<Rightarrow> int option
     \<Rightarrow> 'w KGAgent" where
  "KGAgent_init l ex tb mem ms =
     \<lparr>llm = l,
      executor = (case ex of None \<Rightarrow> KGExecutor_init | Some e \<Rightarrow> e),
      toolbox = (case tb of None \<Rightarrow> Toolbox_init | Some t \<Rightarrow> t),
      memory = (case mem of None \<Rightarrow> Memory_init | Some m \<Rightarrow> m),
      max_steps = (case ms of None \<Rightarrow> 10 | Some n \<Rightarrow> n)\<rparr>"

text \<open>
  What a run works on: the agent object (its memory and toolbox are mutable), the list
  \<^verbatim>\<open>state['steps']\<close>, the outside world, and \<open>llm_calls\<close>, the log of the invocations
  of the language model (prompt and metadata), which the source does not keep and which
  is recorded here to count them.
\<close>

record 'w run_state =
  agent :: "'w KGAgent"
  steps :: "pydict list"
  world :: 'w
  llm_calls :: "(string \<times> pydict) list"

definition state_dict :: "pydict list \<Rightarrow> pyval" where
  "state_dict ss = VDict [(''steps'', VList (map VDict ss)), (''memory_summary'', VNone)]"

definition format_prompt :: "(pyval \<Rightarrow> string) \<Rightarrow> string \<Rightarrow> pyval \<Rightarrow> string" where
  "format_prompt repr question state =
     ''Question: '' @ question @ [CHR 0x0A] @ ''State: '' @ py_str repr state @ [CHR 0x0A]
       @ ''Provide next action (tool/program) or final answer.''"

text \<open>\<^verbatim>\<open>v.get(k, dflt)\<close>: only a dictionary has the method.\<close>

fun py_get :: "pyval \<Rightarrow> string \<Rightarrow> pyval \<Rightarrow> py_exception + pyval" where
  "py_get (VDict d) k dflt = Inr (case map_of d k of None \<Rightarrow> dflt | Some v \<Rightarrow> v)"
| "py_get v k dflt =
     Inl (Exc ''AttributeError''
            (StrReturns
               ([CHR 0x27] @ type_name v @ [CHR 0x27] @ '' object has no attribute ''
                  @ [CHR 0x27] @ ''get'' @ [CHR 0x27])))"

text \<open>How the body of the loop is left.\<close>

datatype flow = Next | Return pyval | Break | Raise py_exception

definition memory_add :: "'w run_state \<Rightarrow> pydict \<Rightarrow> 'w run_state" where
  "memory_add st item = st\<lparr>agent := (agent st)\<lparr>memory := Memory_add (memory (agent st)) item\<rparr>\<rparr>"

text \<open>
  The \<^verbatim>\<open>try\<close> block around the tool call. \<^verbatim>\<open>except Exception as e\<close> does not catch an
  exception that is not an instance of \<^verbatim>\<open>Exception\<close>. For one that is, the handler
  evaluates \<^verbatim>\<open>{'error': str(e)}\<close>; \<^verbatim>\<open>str(e)\<close> runs inside the handler, outside the
  \<^verbatim>\<open>try\<close> block, so an exception that it raises is not caught either.
\<close>

definition try_call :: "py_exception + pyval \<Rightarrow> py_exception + pyval" where
  "try_call r =
     (case r of
        Inr v \<Rightarrow> Inr v
      | Inl e \<Rightarrow>
          if is_Exception e
          then (case exc_str e of
                  StrReturns s \<Rightarrow> Inr (VDict [(''error'', VStr s)])
                | StrRaises e' \<Rightarrow> Inl e')
          else Inl e)"

definition call_tool_branch ::
  "(pyval \<Rightarrow> string) \<Rightarrow> int \<Rightarrow> decision \<Rightarrow> 'w run_state \<Rightarrow> flow \<times> 'w run_state" where
  "call_tool_branch repr step d st =
     (case py_get (payload d) ''tool'' VNone of
        Inl e \<Rightarrow> (Raise e, st)
      | Inr tool_name \<Rightarrow>
          (case py_get (payload d) ''args'' (VStr []) of
             Inl e \<Rightarrow> (Raise e, st)
           | Inr args \<Rightarrow>
               (case call repr (toolbox (agent st)) tool_name [args] [] (world st) of
                  (r, w', tb') \<Rightarrow>
                    (let st1 = st\<lparr>agent := (agent st)\<lparr>toolbox := tb'\<rparr>, world := w'\<rparr> in
                     case try_call r of
                       Inl e \<Rightarrow> (Raise e, st1)
                     | Inr out \<Rightarrow>
                         (Next,
                          memory_add
                            (st1\<lparr>steps := steps st1 @
                               [[(''action'', VStr ''call_tool''), (''tool'', tool_name), (''out'', out)]]\<rparr>)
                            [(''type'', VStr ''tool''), (''tool'', tool_name), (''out'', out),
                             (''step'', VInt step)])))))"

definition run_program_branch :: "int \<Rightarrow> decision \<Rightarrow> 'w run_state \<Rightarrow> flow \<times> 'w run_state" where
  "run_program_branch step d st =
     (let program = payload d;
          result = execute_program (executor (agent st)) program
      in (Next,
          memory_add
            (st\<lparr>steps := steps st @
               [[(''action'', VStr ''run_program''), (''program'', program), (''out'', result)]]\<rparr>)
            [(''type'', VStr ''program''), (''program'', program), (''out'', result),
             (''step'', VInt step)]))"

definition dispatch ::
  "(pyval \<Rightarrow> string) \<Rightarrow> int \<Rightarrow> decision \<Rightarrow> 'w run_state \<Rightarrow> flow \<times> 'w run_state" where
  "dispatch repr step d st =
     (if action d = ''answer''
      then (let ans = payload d
            in (Return ans,
                memory_add st
                  [(''type'', VStr ''final_answer''), (''answer'', ans), (''step'', VInt step)]))
      else if action d = ''call_tool'' then call_tool_branch repr step d st
      else if action d = ''run_program'' then run_program_branch step d st
      else (Break, st))"

text \<open>One pass through the body of the \<^verbatim>\<open>for\<close> loop.\<close>

definition iteration ::
  "(pyval \<Rightarrow> string) \<Rightarrow> string \<Rightarrow> int \<Rightarrow> 'w run_state \<Rightarrow> flow \<times> 'w run_state" where
  "iteration repr question step st =
     (let prompt = format_prompt repr question (state_dict (steps st));
          metadata = [(''step'', VInt step)]
      in case llm (agent st) prompt metadata (world st) of
           (r, w') \<Rightarrow>
             (let st1 = st\<lparr>world := w', llm_calls := llm_calls st @ [(prompt, metadata)]\<rparr> in
              case r of
                Inl e \<Rightarrow> (Raise e, st1)
              | Inr response \<Rightarrow> dispatch repr step (parse_llm_response response) st1))"

definition py_range :: "int \<Rightarrow> int list" where
  "py_range n = map int [0..<nat n]"

text \<open>
  The \<^verbatim>\<open>for\<close> loop over the steps still to run: \<open>Next\<close> at the end says that the
  range is exhausted.
\<close>

fun run_loop ::
  "(pyval \<Rightarrow> string) \<Rightarrow> string \<Rightarrow> int list \<Rightarrow> 'w run_state \<Rightarrow> flow \<times> 'w run_state" where
  "run_loop repr question [] st = (Next, st)"
| "run_loop repr question (step # rest) st =
     (case iteration repr question step st of
        (Next, st') \<Rightarrow> run_loop repr question rest st'
      | (f, st') \<Rightarrow> (f, st'))"

definition summary :: string where
  "summary = ''Unable to reach final answer within step limit.''"

definition timeout_record :: pydict where
  "timeout_record = [(''type'', VStr ''timeout''), (''summary'', VStr summary)]"

definition run ::
  "(pyval \<Rightarrow> string) \<Rightarrow> 'w KGAgent \<Rightarrow> string \<Rightarrow> 'w
     \<Rightarrow> (py_exception + pyval) \<times> 'w run_state" where
  "run repr ag question w =
     (case run_loop repr question (py_range (max_steps ag))
             \<lparr>agent = ag, steps = [], world = w, llm_calls = []\<rparr> of
        (Return ans, st) \<Rightarrow> (Inr ans, st)
      | (Raise e, st) \<Rightarrow> (Inl e, st)
      | (f, st) \<Rightarrow> (Inr (VStr summary), memory_add st timeout_record))"

text \<open>The \<open>step\<close> and \<open>type\<close> fields of a memory record, when it has them.\<close>

definition record_step :: "pydict \<Rightarrow> int option" where
  "record_step r = (case map_of r ''step'' of Some (VInt i) \<Rightarrow> Some i | _ \<Rightarrow> None)"

definition record_type :: "pydict \<Rightarrow> string option" where
  "record_type r = (case map_of r ''type'' of Some (VStr s) \<Rightarrow> Some s | _ \<Rightarrow> None)"

text \<open>
  The layout of a tool call in the words of the specification: the literal \<open>CALL\<close>,
  whitespace, the tool name (a run of non-whitespace characters) and, when something
  follows, whitespace and the remainder of the text as it stands, which begins with a
  non-whitespace character.
\<close>

definition call_shape :: "string \<Rightarrow> string \<Rightarrow> string \<Rightarrow> bool" where
  "call_shape t tool args =
     (\<exists>ws1 ws2. t = ''CALL'' @ ws1 @ tool @ ws2 @ args
        \<and> ws1 \<noteq> [] \<and> list_all isspace ws1 \<and> list_all isspace ws2
        \<and> list_all (\<lambda>c. \<not> isspace c) tool
        \<and> (args = [] \<or> (\<not> isspace (hd args) \<and> ws2 \<noteq> [])))"

section \<open>Stub collaborators\<close>

text \<open>
  The collaborators of the concrete runs below. The world is a counter of the
  invocations of collaborators: the stub language model \<open>stub_llm s\<close> always answers
  \<open>s\<close>, the tool \<open>echo_tool\<close> returns its positional arguments, the tool
  \<open>raising_tool e\<close> raises \<open>e\<close>, and \<open>stub_repr\<close> stands for \<^verbatim>\<open>repr\<close>.
\<close>

definition stub_llm :: "string \<Rightarrow> nat llm" where
  "stub_llm s prompt metadata w = (Inr s, Suc w)"

definition echo_tool :: "nat tool" where
  "echo_tool args kwargs w = (Inr (VList args), Suc w)"

definition raising_tool :: "py_exception \<Rightarrow> nat tool" where
  "raising_tool e args kwargs w = (Inl e, Suc w)"

definition stub_repr :: "pyval \<Rightarrow> string" where
  "stub_repr v = ''<repr>''"

definition stub_toolbox :: "nat Toolbox" where
  "stub_toolbox =
     \<lparr>tools = [VStr ''echo'' \<mapsto> echo_tool,
               VStr ''interrupt'' \<mapsto> raising_tool (BaseExc ''KeyboardInterrupt'' (StrReturns [])),
               VStr ''fail'' \<mapsto> raising_tool (Exc ''ValueError'' (StrReturns ''bad input'')),
               VStr ''mute'' \<mapsto>
                 raising_tool
                   (Exc ''MuteError''
                      (StrRaises (Exc ''RuntimeError'' (StrReturns ''no message''))))]\<rparr>"

section \<open>Properties of the memory log\<close>

lemmas py_string_defs = strip_def isspace_def upper_def upper_char_def startswith_def

text \<open>
  Claim C8. After \<open>Memory.add(record)\<close>, \<open>Memory.query()\<close> ends with the added record
  and is one element longer than before. \<open>Memory.query(key)\<close> is exactly the stored
  records that have \<open>key\<close> among their own keys, in insertion order: every element
  returned has the key, no stored record with the key is left out, and the values of a
  record play no part.
\<close>

theorem Memory_add_then_query:
  "last (Memory_query (Memory_add m r) None) = r
   \<and> length (Memory_query (Memory_add m r) None) = length (Memory_query m None) + 1
   \<and> Memory_query (Memory_add m r) None = Memory_query m None @ [r]
   \<and> Memory_query m (Some k) = filter (\<lambda>s. k \<in> fst ` set s) (Memory_query m None)
   \<and> subseq (Memory_query m (Some k)) (Memory_query m None)
   \<and> (\<forall>s \<in> set (Memory_query m (Some k)). k \<in> fst ` set s)
   \<and> (\<forall>s \<in> set (Memory_query m None). k \<in> fst ` set s \<longrightarrow> s \<in> set (Memory_query m (Some k)))"
  by (auto simp: Memory_query_def Memory_add_def has_key_def map_of_eq_None_iff intro!: filter_cong)

theorem Memory_add_then_query_witness:
  "[(''k'', VInt 1)] \<in> set (Memory_query (Memory_add (Memory_add Memory_init [(''k'', VInt 1)]) [(''a'', VStr ''k'')]) (Some ''k''))
   \<and> [(''k'', VInt 1)] \<in> set (Memory_query (Memory_add (Memory_add Memory_init [(''k'', VInt 1)]) [(''a'', VStr ''k'')]) None)
   \<and> ''k'' \<in> fst ` set [(''k'', VInt 1)]
   \<and> Memory_query (Memory_add (Memory_add Memory_init [(''k'', VInt 1)]) [(''a'', VStr ''k'')]) (Some ''k'')
       = [[(''k'', VInt 1)]]"
  using Memory_add_then_query [of "Memory_add Memory_init [(''k'', VInt 1)]" "[(''a'', VStr ''k'')]" "''k''"]
  by (simp add: Memory_query_def Memory_add_def Memory_init_def has_key_def)

section \<open>Properties of the decision parser\<close>

text \<open>
  Claim C4. When the first seven characters of the trimmed response are \<open>ANSWER:\<close> up
  to case, the parser returns an answer decision whose payload is the rest of the
  trimmed text, trimmed again; the response is not parsed as a tool call, whatever
  follows the prefix.
\<close>

theorem parse_answer:
  assumes "upper (take 7 (strip response)) = ''ANSWER:''"
  shows "parse_llm_response response =
           \<lparr>action = ''answer'', payload = VStr (strip (drop 7 (strip response)))\<rparr>
         \<and> action (parse_llm_response response) \<noteq> ''call_tool''"
proof -
  have len: "length ''ANSWER:'' = (7::nat)" by simp
  have "startswith (upper (strip response)) ''ANSWER:''"
    unfolding startswith_def len using assms by (simp add: upper_def take_map)
  then show ?thesis
    unfolding parse_llm_response_def Let_def len by simp
qed

theorem parse_answer_witness:
  "upper (take 7 (strip ''  answer: please CALL tool x '')) = ''ANSWER:''
   \<and> parse_llm_response ''  answer: please CALL tool x '' =
           \<lparr>action = ''answer'', payload = VStr ''please CALL tool x''\<rparr>
   \<and> action (parse_llm_response ''  answer: please CALL tool x '') \<noteq> ''call_tool''"
proof -
  have h: "upper (take 7 (strip ''  answer: please CALL tool x '')) = ''ANSWER:''"
    by (simp add: py_string_defs)
  have s: "strip (drop 7 (strip ''  answer: please CALL tool x '')) = ''please CALL tool x''"
    by (simp add: py_string_defs)
  show ?thesis using h s parse_answer [OF h] by simp
qed

text \<open>Facts about \<open>split_whitespace\<close> on a text that begins with \<open>CALL \<close>.\<close>

lemma parse_program:
  assumes "\<not> startswith (upper (strip s)) ''ANSWER:''" and "\<not> startswith (strip s) ''CALL ''"
  shows "parse_llm_response s = \<lparr>action = ''run_program'', payload = VStr (strip s)\<rparr>"
  using assms unfolding parse_llm_response_def Let_def by simp

lemma isspace_space: "isspace CHR '' ''"
  by (simp add: isspace_def)

lemma split_call:
  "split_whitespace 2 (''CALL '' @ rest) =
     (let r1 = dropWhile isspace rest in
      if r1 = [] then [''CALL'']
      else ''CALL'' # takeWhile (\<lambda>c. \<not> isspace c) r1
             # (let r2 = dropWhile isspace (dropWhile (\<lambda>c. \<not> isspace c) r1)
                in if r2 = [] then [] else [r2]))"
  by (simp add: numeral_2_eq_2 isspace_def Let_def)

lemma list_all_takeWhile: "list_all P (takeWhile P xs)"
  by (induction xs) auto

lemma dropWhile_Nil_all: "dropWhile P xs = [] \<Longrightarrow> list_all P xs"
  by (induction xs) (auto split: if_splits)

lemma hd_dropWhile_not: "dropWhile P xs \<noteq> [] \<Longrightarrow> \<not> P (hd (dropWhile P xs))"
  by (induction xs) auto

lemma dropWhile_not_Nil: "dropWhile P xs \<noteq> [] \<Longrightarrow> xs \<noteq> []"
  by auto

lemma takeWhile_not_Nil: "xs \<noteq> [] \<Longrightarrow> P (hd xs) \<Longrightarrow> takeWhile P xs \<noteq> []"
  by (cases xs) auto

lemma call_shapeI:
  "t = ''CALL'' @ ws1 @ tool @ ws2 @ args \<Longrightarrow> ws1 \<noteq> [] \<Longrightarrow> list_all isspace ws1 \<Longrightarrow>
   list_all isspace ws2 \<Longrightarrow> list_all (\<lambda>c. \<not> isspace c) tool \<Longrightarrow>
   args = [] \<or> (\<not> isspace (hd args) \<and> ws2 \<noteq> []) \<Longrightarrow> call_shape t tool args"
  unfolding call_shape_def by blast

lemma fields_absent:
  assumes "dropWhile isspace rest = []"
  shows "split_whitespace 2 (''CALL '' @ rest) = [''CALL'']"
    and "call_shape (''CALL '' @ rest) [] []"
proof -
  show "split_whitespace 2 (''CALL '' @ rest) = [''CALL'']"
    unfolding split_call Let_def using assms by simp
  have ws: "list_all isspace (CHR '' '' # rest)"
    using dropWhile_Nil_all [OF assms] by (simp add: isspace_space)
  show "call_shape (''CALL '' @ rest) [] []"
    by (rule call_shapeI [where ?ws1.0 = "CHR '' '' # rest" and ?ws2.0 = "[]"])
       (use ws in simp_all)
qed

lemma fields_present:
  assumes "dropWhile isspace rest \<noteq> []"
  shows "\<exists>tool args. split_whitespace 2 (''CALL '' @ rest) = ''CALL'' # tool # (if args = [] then [] else [args])
           \<and> call_shape (''CALL '' @ rest) tool args"
proof -
  let ?r1 = "dropWhile isspace rest"
  let ?f1 = "takeWhile (\<lambda>c. \<not> isspace c) ?r1"
  let ?d1 = "dropWhile (\<lambda>c. \<not> isspace c) ?r1"
  let ?r2 = "dropWhile isspace ?d1"
  have parts: "split_whitespace 2 (''CALL '' @ rest) = ''CALL'' # ?f1 # (if ?r2 = [] then [] else [?r2])"
    unfolding split_call Let_def using assms by simp
  have "takeWhile isspace rest @ ?f1 @ takeWhile isspace ?d1 @ ?r2 = rest"
    by simp
  then have "''CALL '' @ (takeWhile isspace rest @ ?f1 @ takeWhile isspace ?d1 @ ?r2) = ''CALL '' @ rest"
    by (rule arg_cong)
  then have decomp: "''CALL '' @ rest = ''CALL'' @ (CHR '' '' # takeWhile isspace rest) @ ?f1 @ takeWhile isspace ?d1 @ ?r2"
    by simp
  have ws1: "list_all isspace (CHR '' '' # takeWhile isspace rest)"
    by (simp add: isspace_space list_all_takeWhile)
  have ws2: "list_all isspace (takeWhile isspace ?d1)"
    by (rule list_all_takeWhile)
  have f1: "list_all (\<lambda>c. \<not> isspace c) ?f1"
    by (rule list_all_takeWhile)
  have last: "?r2 = [] \<or> (\<not> isspace (hd ?r2) \<and> takeWhile isspace ?d1 \<noteq> [])"
  proof (cases "?r2 = []")
    case True
    then show ?thesis by (rule disjI1)
  next
    case False
    then have a: "\<not> isspace (hd ?r2)"
      by (rule hd_dropWhile_not)
    from False have d1n: "?d1 \<noteq> []" by (rule dropWhile_not_Nil)
    then have "\<not> \<not> isspace (hd ?d1)"
      by (rule hd_dropWhile_not)
    then have "isspace (hd ?d1)" by simp
    with d1n have "takeWhile isspace ?d1 \<noteq> []"
      by (rule takeWhile_not_Nil)
    with a show ?thesis by blast
  qed
  have ne: "CHR '' '' # takeWhile isspace rest \<noteq> []" by simp
  have "call_shape (''CALL '' @ rest) ?f1 ?r2"
    using decomp ne ws1 ws2 f1 last by (rule call_shapeI)
  with parts show ?thesis by blast
qed


lemma startswith_CALL:
  assumes "startswith t ''CALL ''"
  shows "t = ''CALL '' @ drop 5 t"
proof -
  have "length ''CALL '' = (5::nat)" by simp
  with assms have "take 5 t = ''CALL ''" unfolding startswith_def by metis
  then show ?thesis by (metis append_take_drop_id)
qed

lemma call_fields:
  assumes "startswith t ''CALL ''"
  shows "\<exists>tool args.
           length (split_whitespace 2 t) \<le> 3
         \<and> split_whitespace 2 t ! 0 = ''CALL''
         \<and> tool = (if 1 < length (split_whitespace 2 t) then split_whitespace 2 t ! 1 else [])
         \<and> args = (if 2 < length (split_whitespace 2 t) then split_whitespace 2 t ! 2 else [])
         \<and> call_shape t tool args"
proof -
  define rest where "rest = drop 5 t"
  have t: "t = ''CALL '' @ rest"
    unfolding rest_def using assms by (rule startswith_CALL)
  show ?thesis
  proof (cases "dropWhile isspace rest = []")
    case True
    from fields_absent [OF True]
    have "split_whitespace 2 t = [''CALL'']" and "call_shape t [] []"
      unfolding t by blast+
    then show ?thesis by simp
  next
    case False
    from fields_present [OF False]
    obtain tool args where
      parts: "split_whitespace 2 t = ''CALL'' # tool # (if args = [] then [] else [args])"
      and shape: "call_shape t tool args"
      unfolding t by blast
    have "length (split_whitespace 2 t) \<le> 3"
      and "split_whitespace 2 t ! 0 = ''CALL''"
      and "tool = (if 1 < length (split_whitespace 2 t) then split_whitespace 2 t ! 1 else [])"
      and "args = (if 2 < length (split_whitespace 2 t) then split_whitespace 2 t ! 2 else [])"
      unfolding parts by simp_all
    with shape show ?thesis by blast
  qed
qed

text \<open>
  Claim C3. For a response whose trimmed text does not match the \<open>ANSWER:\<close> prefix:
  if the text starts with the literal \<open>CALL \<close>, the parser cuts at most three
  whitespace-delimited fields, the first being \<open>CALL\<close>, and returns a \<open>call_tool\<close>
  decision whose tool name is the second field and whose argument string is the third,
  each empty when absent; the third field is the remainder of the text as it stands, so
  it may contain spaces. For any other text the parser returns a \<open>run_program\<close>
  decision whose payload is the whole trimmed text.
\<close>

theorem parse_call_or_program:
  assumes "\<not> startswith (upper (strip response)) ''ANSWER:''"
  shows "(startswith (strip response) ''CALL '' \<longrightarrow>
            (\<exists>tool args.
               parse_llm_response response =
                 \<lparr>action = ''call_tool'',
                  payload = VDict [(''tool'', VStr tool), (''args'', VStr args)]\<rparr>
             \<and> length (split_whitespace 2 (strip response)) \<le> 3
             \<and> split_whitespace 2 (strip response) ! 0 = ''CALL''
             \<and> tool = (if 1 < length (split_whitespace 2 (strip response))
                       then split_whitespace 2 (strip response) ! 1 else [])
             \<and> args = (if 2 < length (split_whitespace 2 (strip response))
                       then split_whitespace 2 (strip response) ! 2 else [])
             \<and> call_shape (strip response) tool args))
       \<and> (\<not> startswith (strip response) ''CALL '' \<longrightarrow>
            parse_llm_response response =
              \<lparr>action = ''run_program'', payload = VStr (strip response)\<rparr>)"
proof (intro conjI impI)
  assume c: "startswith (strip response) ''CALL ''"
  from call_fields [OF c] obtain tool args where
    f: "length (split_whitespace 2 (strip response)) \<le> 3"
       "split_whitespace 2 (strip response) ! 0 = ''CALL''"
       "tool = (if 1 < length (split_whitespace 2 (strip response))
                then split_whitespace 2 (strip response) ! 1 else [])"
       "args = (if 2 < length (split_whitespace 2 (strip response))
                then split_whitespace 2 (strip response) ! 2 else [])"
       "call_shape (strip response) tool args"
    by blast
  have "parse_llm_response response =
          \<lparr>action = ''call_tool'', payload = VDict [(''tool'', VStr tool), (''args'', VStr args)]\<rparr>"
    unfolding parse_llm_response_def Let_def f(3,4) using assms c by simp
  with f show "\<exists>tool args.
               parse_llm_response response =
                 \<lparr>action = ''call_tool'',
                  payload = VDict [(''tool'', VStr tool), (''args'', VStr args)]\<rparr>
             \<and> length (split_whitespace 2 (strip response)) \<le> 3
             \<and> split_whitespace 2 (strip response) ! 0 = ''CALL''
             \<and> tool = (if 1 < length (split_whitespace 2 (strip response))
                       then split_whitespace 2 (strip response) ! 1 else [])
             \<and> args = (if 2 < length (split_whitespace 2 (strip response))
                       then split_whitespace 2 (strip response) ! 2 else [])
             \<and> call_shape (strip response) tool args"
    by blast
next
  assume "\<not> startswith (strip response) ''CALL ''"
  with assms show "parse_llm_response response =
              \<lparr>action = ''run_program'', payload = VStr (strip response)\<rparr>"
    by (rule parse_program)
qed

theorem parse_call_or_program_witness:
  "\<not> startswith (upper (strip ''CALL toolA some args here'')) ''ANSWER:''
   \<and> startswith (strip ''CALL toolA some args here'') ''CALL ''
   \<and> parse_llm_response ''CALL toolA some args here'' =
        \<lparr>action = ''call_tool'',
         payload = VDict [(''tool'', VStr ''toolA''), (''args'', VStr ''some args here'')]\<rparr>
   \<and> \<not> startswith (upper (strip ''RUN x'')) ''ANSWER:''
   \<and> \<not> startswith (strip ''RUN x'') ''CALL ''
   \<and> parse_llm_response ''RUN x'' = \<lparr>action = ''run_program'', payload = VStr ''RUN x''\<rparr>"
proof -
  have a1: "\<not> startswith (upper (strip ''CALL toolA some args here'')) ''ANSWER:''"
    by (simp add: py_string_defs)
  have c1: "startswith (strip ''CALL toolA some args here'') ''CALL ''"
    by (simp add: py_string_defs)
  have s1: "strip ''CALL toolA some args here'' = ''CALL toolA some args here''"
    by (simp add: py_string_defs)
  have f1: "split_whitespace 2 ''CALL toolA some args here'' = [''CALL'', ''toolA'', ''some args here'']"
    by (simp add: numeral_2_eq_2 isspace_def)
  have a2: "\<not> startswith (upper (strip ''RUN x'')) ''ANSWER:''"
    by (simp add: py_string_defs)
  have c2: "\<not> startswith (strip ''RUN x'') ''CALL ''"
    by (simp add: py_string_defs)
  have s2: "strip ''RUN x'' = ''RUN x''"
    by (simp add: py_string_defs)
  from parse_call_or_program [OF a1] c1
  have "parse_llm_response ''CALL toolA some args here'' =
        \<lparr>action = ''call_tool'',
         payload = VDict [(''tool'', VStr ''toolA''), (''args'', VStr ''some args here'')]\<rparr>"
    unfolding s1 f1 by auto
  moreover from parse_call_or_program [OF a2] c2
  have "parse_llm_response ''RUN x'' = \<lparr>action = ''run_program'', payload = VStr ''RUN x''\<rparr>"
    unfolding s2 by blast
  ultimately show ?thesis using a1 c1 a2 c2 by blast
qed

section \<open>Properties of the toolbox\<close>

text \<open>
  Claim C7. \<open>Toolbox.call\<close> on a name that is not registered raises the lookup error
  (\<^verbatim>\<open>KeyError\<close> in the source), invokes nothing (the world is as before) and leaves
  the registry as it was. On a registered name it applies the callable bound to that
  name, once, to the given arguments, and returns what the callable returns.
\<close>

theorem Toolbox_call_contract:
  "(tools tb (VStr n) = None \<longrightarrow>
      call repr tb (VStr n) args kwargs w =
        (Inl (KeyError repr (''Tool '' @ [CHR 0x27] @ n @ [CHR 0x27] @ '' not registered'')), w, tb)
      \<and> exc_class (KeyError repr (''Tool '' @ [CHR 0x27] @ n @ [CHR 0x27] @ '' not registered'')) = ''KeyError'')
   \<and> (\<forall>fn. tools tb (VStr n) = Some fn \<longrightarrow>
         call repr tb (VStr n) args kwargs w = (fst (fn args kwargs w), snd (fn args kwargs w), tb))"
  by (simp add: call_def py_str_def KeyError_def split: prod.splits)

theorem Toolbox_call_contract_witness:
  "tools stub_toolbox (VStr ''missing'') = None
   \<and> call stub_repr stub_toolbox (VStr ''missing'') [VStr ''x''] [] 0
       = (Inl (Exc ''KeyError'' (StrReturns ''<repr>'')), 0, stub_toolbox)
   \<and> tools stub_toolbox (VStr ''echo'') = Some echo_tool
   \<and> call stub_repr stub_toolbox (VStr ''echo'') [VStr ''x''] [] 0
       = (Inr (VList [VStr ''x'']), 1, stub_toolbox)"
proof -
  have miss: "tools stub_toolbox (VStr ''missing'') = None"
    by (simp add: stub_toolbox_def)
  have hit: "tools stub_toolbox (VStr ''echo'') = Some echo_tool"
    by (simp add: stub_toolbox_def)
  show ?thesis
    using miss hit
      Toolbox_call_contract [of stub_toolbox "''missing''" stub_repr "[VStr ''x'']" "[]" 0]
      Toolbox_call_contract [of stub_toolbox "''echo''" stub_repr "[VStr ''x'']" "[]" 0]
    by (simp add: KeyError_def stub_repr_def echo_tool_def)
qed

section \<open>Properties of the agent loop\<close>

text \<open>
  Claim C10. With \<open>max_steps \<le> 0\<close> the run never invokes the language model (no
  call is logged and the world is untouched), adds the \<open>timeout\<close> record and nothing
  else to the memory, and returns the fixed summary. The constructor's default for
  \<open>max_steps\<close> is 10.
\<close>

theorem run_without_steps:
  assumes "max_steps ag \<le> 0"
  shows "run repr ag question w =
           (Inr (VStr summary),
            \<lparr>agent = ag\<lparr>memory := Memory_add (memory ag) timeout_record\<rparr>,
             steps = [], world = w, llm_calls = []\<rparr>)
         \<and> store (memory (agent (snd (run repr ag question w)))) = store (memory ag) @ [timeout_record]
         \<and> max_steps (KGAgent_init l ex tb mem None) = 10"
  using assms by (simp add: run_def py_range_def memory_add_def Memory_add_def KGAgent_init_def)

theorem run_without_steps_witness:
  "max_steps (KGAgent_init (stub_llm ''ANSWER: demo'') None None None (Some (- 1))) \<le> 0
   \<and> fst (run stub_repr (KGAgent_init (stub_llm ''ANSWER: demo'') None None None (Some (- 1))) ''q'' 0)
       = Inr (VStr summary)
   \<and> llm_calls (snd (run stub_repr (KGAgent_init (stub_llm ''ANSWER: demo'') None None None (Some (- 1))) ''q'' 0)) = []
   \<and> world (snd (run stub_repr (KGAgent_init (stub_llm ''ANSWER: demo'') None None None (Some (- 1))) ''q'' 0)) = 0
   \<and> store (memory (agent (snd (run stub_repr (KGAgent_init (stub_llm ''ANSWER: demo'') None None None (Some (- 1))) ''q'' 0))))
       = [timeout_record]"
proof -
  have h: "max_steps (KGAgent_init (stub_llm ''ANSWER: demo'') None None None (Some (- 1))) \<le> 0"
    by (simp add: KGAgent_init_def)
  show ?thesis
    using h run_without_steps [OF h, of stub_repr "''q''" 0]
    by (simp add: KGAgent_init_def Memory_init_def Memory_add_def)
qed

text \<open>Facts about one pass of the loop, shared by the proofs below.\<close>

lemma py_range_pos: "0 < n \<Longrightarrow> py_range n = 0 # map int [1..<nat n]"
  by (simp add: py_range_def upt_conv_Cons)

lemma py_range_3: "py_range 3 = [0, 1, 2]"
  by (simp add: py_range_def upt_conv_Cons numeral_3_eq_3)

lemma dispatch_answer:
  "action d = ''answer'' \<Longrightarrow>
   dispatch repr step d st =
     (Return (payload d),
      memory_add st [(''type'', VStr ''final_answer''), (''answer'', payload d), (''step'', VInt step)])"
  by (simp add: dispatch_def Let_def)

lemma dispatch_program:
  "action d = ''run_program'' \<Longrightarrow>
   dispatch repr step d st =
     (Next,
      memory_add
        (st\<lparr>steps := steps st @
           [[(''action'', VStr ''run_program''), (''program'', payload d), (''out'', VNone)]]\<rparr>)
        [(''type'', VStr ''program''), (''program'', payload d), (''out'', VNone), (''step'', VInt step)])"
  by (simp add: dispatch_def run_program_branch_def execute_program_def Let_def)

lemma iteration_response:
  assumes "llm (agent st) (format_prompt repr question (state_dict (steps st))) [(''step'', VInt step)] (world st)
             = (Inr response, w')"
  shows "iteration repr question step st =
           dispatch repr step (parse_llm_response response)
             (st\<lparr>world := w',
                 llm_calls := llm_calls st @
                   [(format_prompt repr question (state_dict (steps st)), [(''step'', VInt step)])]\<rparr>)"
  using assms by (simp add: iteration_def Let_def)

text \<open>
  Claim C6. When the language model answers \<open>ANSWER: demo\<close> to its first invocation
  (the run has at least one step), the run returns \<open>demo\<close> after that single
  invocation, and the only record it adds to the memory is a \<open>final_answer\<close> record
  with \<open>step\<close> 0.
\<close>

theorem run_answer_demo:
  assumes "0 < max_steps ag"
    and "llm ag (format_prompt repr question (state_dict [])) [(''step'', VInt 0)] w
           = (Inr ''ANSWER: demo'', w')"
  shows "run repr ag question w =
           (Inr (VStr ''demo''),
            \<lparr>agent = ag\<lparr>memory := Memory_add (memory ag)
                 [(''type'', VStr ''final_answer''), (''answer'', VStr ''demo''), (''step'', VInt 0)]\<rparr>,
             steps = [], world = w',
             llm_calls = [(format_prompt repr question (state_dict []), [(''step'', VInt 0)])]\<rparr>)
         \<and> length (llm_calls (snd (run repr ag question w))) = 1
         \<and> store (memory (agent (snd (run repr ag question w)))) =
             store (memory ag) @
               [[(''type'', VStr ''final_answer''), (''answer'', VStr ''demo''), (''step'', VInt 0)]]"
proof -
  have p: "parse_llm_response ''ANSWER: demo'' = \<lparr>action = ''answer'', payload = VStr ''demo''\<rparr>"
    by (simp add: parse_llm_response_def py_string_defs Let_def)
  let ?st0 = "\<lparr>agent = ag, steps = [], world = w, llm_calls = []\<rparr>"
  have it: "iteration repr question 0 ?st0 =
      (Return (VStr ''demo''),
       memory_add (?st0\<lparr>world := w',
           llm_calls := [(format_prompt repr question (state_dict []), [(''step'', VInt 0)])]\<rparr>)
         [(''type'', VStr ''final_answer''), (''answer'', VStr ''demo''), (''step'', VInt 0)])"
    using assms(2) by (simp add: iteration_response p dispatch_answer)
  have "run repr ag question w =
           (Inr (VStr ''demo''),
            \<lparr>agent = ag\<lparr>memory := Memory_add (memory ag)
                 [(''type'', VStr ''final_answer''), (''answer'', VStr ''demo''), (''step'', VInt 0)]\<rparr>,
             steps = [], world = w',
             llm_calls = [(format_prompt repr question (state_dict []), [(''step'', VInt 0)])]\<rparr>)"
    unfolding run_def py_range_pos [OF assms(1)]
    by (simp add: it memory_add_def)
  then show ?thesis by (simp add: Memory_add_def)
qed

theorem run_answer_demo_witness:
  "0 < max_steps (KGAgent_init (stub_llm ''ANSWER: demo'') None None None None)
   \<and> llm (KGAgent_init (stub_llm ''ANSWER: demo'') None None None None)
        (format_prompt stub_repr ''q'' (state_dict [])) [(''step'', VInt 0)] 0 = (Inr ''ANSWER: demo'', 1)
   \<and> fst (run stub_repr (KGAgent_init (stub_llm ''ANSWER: demo'') None None None None) ''q'' 0)
        = Inr (VStr ''demo'')
   \<and> world (snd (run stub_repr (KGAgent_init (stub_llm ''ANSWER: demo'') None None None None) ''q'' 0)) = 1
   \<and> length (llm_calls (snd (run stub_repr (KGAgent_init (stub_llm ''ANSWER: demo'') None None None None) ''q'' 0))) = 1
   \<and> store (memory (agent (snd (run stub_repr (KGAgent_init (stub_llm ''ANSWER: demo'') None None None None) ''q'' 0))))
        = [[(''type'', VStr ''final_answer''), (''answer'', VStr ''demo''), (''step'', VInt 0)]]"
proof -
  let ?ag = "KGAgent_init (stub_llm ''ANSWER: demo'') None None None None"
  have h1: "0 < max_steps ?ag"
    by (simp add: KGAgent_init_def)
  have h2: "llm ?ag (format_prompt stub_repr ''q'' (state_dict [])) [(''step'', VInt 0)] 0
              = (Inr ''ANSWER: demo'', 1)"
    by (simp add: KGAgent_init_def stub_llm_def)
  show ?thesis
    using h1 h2 run_answer_demo [OF h1 h2]
    by (simp add: KGAgent_init_def Memory_init_def Memory_add_def)
qed

lemma iteration_program:
  assumes "\<forall>p m w. \<exists>s w'. llm (agent st) p m w = (Inr s, w')
             \<and> \<not> startswith (upper (strip s)) ''ANSWER:'' \<and> \<not> startswith (strip s) ''CALL ''"
  shows "\<exists>st' p. iteration repr question step st = (Next, st')
           \<and> llm (agent st') = llm (agent st)
           \<and> store (memory (agent st')) = store (memory (agent st)) @
                [[(''type'', VStr ''program''), (''program'', VStr p), (''out'', VNone),
                  (''step'', VInt step)]]
           \<and> length (llm_calls st') = length (llm_calls st) + 1"
proof -
  from assms obtain s w' where
    l: "llm (agent st) (format_prompt repr question (state_dict (steps st))) [(''step'', VInt step)] (world st)
          = (Inr s, w')"
    and n: "\<not> startswith (upper (strip s)) ''ANSWER:''" "\<not> startswith (strip s) ''CALL ''"
    by blast
  have p: "parse_llm_response s = \<lparr>action = ''run_program'', payload = VStr (strip s)\<rparr>"
    using n by (rule parse_program)
  show ?thesis
    by (simp add: iteration_response [OF l] p dispatch_program memory_add_def Memory_add_def)
qed

lemma run_loop_programs:
  assumes "\<forall>p m w. \<exists>s w'. llm (agent st) p m w = (Inr s, w')
             \<and> \<not> startswith (upper (strip s)) ''ANSWER:'' \<and> \<not> startswith (strip s) ''CALL ''"
  shows "\<exists>st' ps. run_loop repr question ss st = (Next, st')
           \<and> length ps = length ss
           \<and> store (memory (agent st')) = store (memory (agent st)) @
                map (\<lambda>(p, i). [(''type'', VStr ''program''), (''program'', VStr p), (''out'', VNone),
                                (''step'', VInt i)]) (zip ps ss)
           \<and> length (llm_calls st') = length (llm_calls st) + length ss"
  using assms
proof (induction ss arbitrary: st)
  case Nil
  then show ?case by simp
next
  case (Cons i ss)
  from iteration_program [OF Cons.prems, of repr question i]
  obtain st1 p where it: "iteration repr question i st = (Next, st1)"
    and l1: "llm (agent st1) = llm (agent st)"
    and m1: "store (memory (agent st1)) = store (memory (agent st)) @
                [[(''type'', VStr ''program''), (''program'', VStr p), (''out'', VNone),
                  (''step'', VInt i)]]"
    and c1: "length (llm_calls st1) = length (llm_calls st) + 1"
    by blast
  from Cons.prems l1 have "\<forall>p m w. \<exists>s w'. llm (agent st1) p m w = (Inr s, w')
             \<and> \<not> startswith (upper (strip s)) ''ANSWER:'' \<and> \<not> startswith (strip s) ''CALL ''"
    by simp
  from Cons.IH [OF this]
  obtain st' ps where r: "run_loop repr question ss st1 = (Next, st')"
    and len: "length ps = length ss"
    and m: "store (memory (agent st')) = store (memory (agent st1)) @
                map (\<lambda>(p, i). [(''type'', VStr ''program''), (''program'', VStr p), (''out'', VNone),
                                (''step'', VInt i)]) (zip ps ss)"
    and c: "length (llm_calls st') = length (llm_calls st1) + length ss"
    by blast
  have "run_loop repr question (i # ss) st = (Next, st')"
    by (simp add: it r)
  moreover have "length (p # ps) = length (i # ss)"
    by (simp add: len)
  moreover have "store (memory (agent st')) = store (memory (agent st)) @
                map (\<lambda>(p, i). [(''type'', VStr ''program''), (''program'', VStr p), (''out'', VNone),
                                (''step'', VInt i)]) (zip (p # ps) (i # ss))"
    by (simp add: m m1)
  moreover have "length (llm_calls st') = length (llm_calls st) + length (i # ss)"
    by (simp add: c c1)
  ultimately show ?case by blast
qed

text \<open>
  Claim C5. When every response of the language model matches neither the \<open>ANSWER:\<close>
  prefix nor the \<open>CALL \<close> prefix and \<open>max_steps\<close> is 3, the run invokes the model
  exactly three times, adds three \<open>program\<close> records (steps 0, 1 and 2) and then the
  \<open>timeout\<close> record to the memory, and returns the fixed summary.
\<close>

theorem run_three_programs:
  assumes "max_steps ag = 3"
    and "\<forall>p m w. \<exists>s w'. llm ag p m w = (Inr s, w')
             \<and> \<not> startswith (upper (strip s)) ''ANSWER:'' \<and> \<not> startswith (strip s) ''CALL ''"
  shows "\<exists>st p0 p1 p2.
           run repr ag question w = (Inr (VStr summary), st)
           \<and> length (llm_calls st) = 3
           \<and> store (memory (agent st)) = store (memory ag) @
               [[(''type'', VStr ''program''), (''program'', VStr p0), (''out'', VNone), (''step'', VInt 0)],
                [(''type'', VStr ''program''), (''program'', VStr p1), (''out'', VNone), (''step'', VInt 1)],
                [(''type'', VStr ''program''), (''program'', VStr p2), (''out'', VNone), (''step'', VInt 2)],
                [(''type'', VStr ''timeout''), (''summary'', VStr summary)]]"
proof -
  let ?st0 = "\<lparr>agent = ag, steps = [], world = w, llm_calls = []\<rparr>"
  have "\<forall>p m w. \<exists>s w'. llm (agent ?st0) p m w = (Inr s, w')
             \<and> \<not> startswith (upper (strip s)) ''ANSWER:'' \<and> \<not> startswith (strip s) ''CALL ''"
    using assms(2) by simp
  from run_loop_programs [OF this, of repr question "[0, 1, 2]"]
  obtain st' ps where r: "run_loop repr question [0, 1, 2] ?st0 = (Next, st')"
    and len': "length ps = length [0::int, 1, 2]"
    and m': "store (memory (agent st')) = store (memory (agent ?st0)) @
                map (\<lambda>(p, i). [(''type'', VStr ''program''), (''program'', VStr p), (''out'', VNone),
                                (''step'', VInt i)]) (zip ps [0, 1, 2])"
    and c': "length (llm_calls st') = length (llm_calls ?st0) + length [0::int, 1, 2]"
    by blast
  have len: "length ps = 3" using len' by simp
  have c: "length (llm_calls st') = 3" using c' by simp
  have m: "store (memory (agent st')) = store (memory ag) @
                map (\<lambda>(p, i). [(''type'', VStr ''program''), (''program'', VStr p), (''out'', VNone),
                                (''step'', VInt i)]) (zip ps [0, 1, 2])"
    using m' by simp
  from len obtain p0 p1 p2 where ps: "ps = [p0, p1, p2]"
    by (auto simp: numeral_3_eq_3 length_Suc_conv)
  have "run repr ag question w = (Inr (VStr summary), memory_add st' timeout_record)"
    unfolding run_def assms(1) py_range_3 r by simp
  moreover have "length (llm_calls (memory_add st' timeout_record)) = 3"
    by (simp add: memory_add_def c)
  moreover have "store (memory (agent (memory_add st' timeout_record))) = store (memory ag) @
               [[(''type'', VStr ''program''), (''program'', VStr p0), (''out'', VNone), (''step'', VInt 0)],
                [(''type'', VStr ''program''), (''program'', VStr p1), (''out'', VNone), (''step'', VInt 1)],
                [(''type'', VStr ''program''), (''program'', VStr p2), (''out'', VNone), (''step'', VInt 2)],
                [(''type'', VStr ''timeout''), (''summary'', VStr summary)]]"
    by (simp add: memory_add_def Memory_add_def m ps timeout_record_def)
  ultimately show ?thesis by blast
qed

theorem run_three_programs_witness:
  "max_steps (KGAgent_init (stub_llm ''RUN x'') None None None (Some 3)) = 3
   \<and> fst (run stub_repr (KGAgent_init (stub_llm ''RUN x'') None None None (Some 3)) ''q'' 0)
       = Inr (VStr summary)
   \<and> world (snd (run stub_repr (KGAgent_init (stub_llm ''RUN x'') None None None (Some 3)) ''q'' 0)) = 3
   \<and> length (llm_calls (snd (run stub_repr (KGAgent_init (stub_llm ''RUN x'') None None None (Some 3)) ''q'' 0))) = 3
   \<and> length (store (memory (agent (snd (run stub_repr (KGAgent_init (stub_llm ''RUN x'') None None None (Some 3)) ''q'' 0))))) = 4"
proof -
  let ?ag = "KGAgent_init (stub_llm ''RUN x'') None None None (Some 3)"
  have h1: "max_steps ?ag = 3"
    by (simp add: KGAgent_init_def)
  have h2: "\<forall>p m w. \<exists>s w'. llm ?ag p m w = (Inr s, w')
             \<and> \<not> startswith (upper (strip s)) ''ANSWER:'' \<and> \<not> startswith (strip s) ''CALL ''"
    by (simp add: KGAgent_init_def stub_llm_def py_string_defs)
  have w: "world (snd (run stub_repr ?ag ''q'' 0)) = 3"
    by (simp add: run_def py_range_3 KGAgent_init_def iteration_def stub_llm_def Let_def
          parse_llm_response_def py_string_defs dispatch_def run_program_branch_def memory_add_def)
  from run_three_programs [OF h1 h2, of stub_repr "''q''" 0]
  show ?thesis
    using h1 w by (auto simp: KGAgent_init_def Memory_init_def)
qed

section \<open>Invariants of the loop\<close>

text \<open>
  What one pass, and then the whole loop, does to the agent and the memory: the language
  model of the agent is never replaced, the body is never left by \<open>Break\<close>, at most one
  record is added per pass and it carries the index of the pass, and a returned value is
  the payload of an answer decision parsed from a response of the language model.
\<close>

lemma parse_cases:
  obtains (answer) a where "parse_llm_response r = \<lparr>action = ''answer'', payload = VStr a\<rparr>"
  | (call_tool) t a where "parse_llm_response r =
       \<lparr>action = ''call_tool'', payload = VDict [(''tool'', VStr t), (''args'', VStr a)]\<rparr>"
  | (run_program) p where "parse_llm_response r = \<lparr>action = ''run_program'', payload = VStr p\<rparr>"
proof (cases "startswith (upper (strip r)) ''ANSWER:''")
  case True
  then have "parse_llm_response r =
      \<lparr>action = ''answer'', payload = VStr (strip (drop (length ''ANSWER:'') (strip r)))\<rparr>"
    unfolding parse_llm_response_def Let_def by (rule if_P)
  then show ?thesis by (rule answer)
next
  case False
  show ?thesis
  proof (cases "startswith (strip r) ''CALL ''")
    case True
    with False have "parse_llm_response r =
      \<lparr>action = ''call_tool'',
       payload = VDict [(''tool'', VStr (if 1 < length (split_whitespace 2 (strip r))
                                        then split_whitespace 2 (strip r) ! 1 else [])),
                        (''args'', VStr (if 2 < length (split_whitespace 2 (strip r))
                                        then split_whitespace 2 (strip r) ! 2 else []))]\<rparr>"
      unfolding parse_llm_response_def Let_def by simp
    then show ?thesis by (rule call_tool)
  next
    case c: False
    from False c have "parse_llm_response r = \<lparr>action = ''run_program'', payload = VStr (strip r)\<rparr>"
      by (rule parse_program)
    then show ?thesis by (rule run_program)
  qed
qed

lemma dispatch_call_tool:
  "dispatch repr step
     \<lparr>action = ''call_tool'', payload = VDict [(''tool'', VStr t), (''args'', VStr a)]\<rparr> st =
   (case call repr (toolbox (agent st)) (VStr t) [VStr a] [] (world st) of
      (r, w', tb') \<Rightarrow>
        (case try_call r of
           Inl e \<Rightarrow> (Raise e, st\<lparr>agent := (agent st)\<lparr>toolbox := tb'\<rparr>, world := w'\<rparr>)
         | Inr out \<Rightarrow>
             (Next,
              memory_add
                (st\<lparr>agent := (agent st)\<lparr>toolbox := tb'\<rparr>, world := w',
                    steps := steps st @
                      [[(''action'', VStr ''call_tool''), (''tool'', VStr t), (''out'', out)]]\<rparr>)
                [(''type'', VStr ''tool''), (''tool'', VStr t), (''out'', out),
                 (''step'', VInt step)])))"
  by (simp add: dispatch_def call_tool_branch_def Let_def split: prod.splits sum.splits)

lemma dispatch_parse_inv:
  assumes "dispatch repr step (parse_llm_response r) st = (f, st')"
  shows "llm (agent st') = llm (agent st) \<and> f \<noteq> Break
       \<and> (\<exists>rs. store (memory (agent st')) = store (memory (agent st)) @ rs
              \<and> length rs \<le> 1 \<and> (f = Next \<longrightarrow> length rs = 1)
              \<and> map record_step rs = replicate (length rs) (Some step)
              \<and> list_all (\<lambda>r. record_type r \<in> {Some ''final_answer'', Some ''tool'', Some ''program''}) rs)
       \<and> (\<forall>v. f = Return v \<longrightarrow> parse_llm_response r = \<lparr>action = ''answer'', payload = v\<rparr>)"
proof (cases r rule: parse_cases)
  case (answer a)
  with assms show ?thesis
    by (auto simp: dispatch_answer memory_add_def Memory_add_def record_step_def record_type_def)
next
  case (call_tool t a)
  with assms show ?thesis
    by (auto simp: dispatch_call_tool memory_add_def Memory_add_def record_step_def record_type_def
          split: prod.splits sum.splits)
next
  case (run_program p)
  with assms show ?thesis
    by (auto simp: dispatch_program memory_add_def Memory_add_def record_step_def record_type_def)
qed

lemma iteration_inv:
  assumes "iteration repr question step st = (f, st')"
  shows "llm (agent st') = llm (agent st) \<and> f \<noteq> Break
       \<and> (\<exists>rs. store (memory (agent st')) = store (memory (agent st)) @ rs
              \<and> length rs \<le> 1 \<and> (f = Next \<longrightarrow> length rs = 1)
              \<and> map record_step rs = replicate (length rs) (Some step)
              \<and> list_all (\<lambda>r. record_type r \<in> {Some ''final_answer'', Some ''tool'', Some ''program''}) rs)
       \<and> (\<forall>v. f = Return v \<longrightarrow>
            (\<exists>p m w1 w2 resp. llm (agent st) p m w1 = (Inr resp, w2)
               \<and> parse_llm_response resp = \<lparr>action = ''answer'', payload = v\<rparr>))"
proof -
  obtain r w' where l:
    "llm (agent st) (format_prompt repr question (state_dict (steps st))) [(''step'', VInt step)] (world st)
       = (r, w')"
    by (cases "llm (agent st) (format_prompt repr question (state_dict (steps st))) [(''step'', VInt step)] (world st)")
  show ?thesis
  proof (cases r)
    case (Inl e)
    with assms l show ?thesis
      by (auto simp: iteration_def Let_def)
  next
    case (Inr response)
    with l have l': "llm (agent st) (format_prompt repr question (state_dict (steps st))) [(''step'', VInt step)] (world st)
       = (Inr response, w')" by simp
    from assms have d: "dispatch repr step (parse_llm_response response)
             (st\<lparr>world := w',
                 llm_calls := llm_calls st @
                   [(format_prompt repr question (state_dict (steps st)), [(''step'', VInt step)])]\<rparr>) = (f, st')"
      by (simp add: iteration_response [OF l'])
    from dispatch_parse_inv [OF d] l' show ?thesis
      by (simp; blast)
  qed
qed


lemma run_loop_inv:
  assumes "run_loop repr question ss st = (f, st')"
  shows "f \<noteq> Break \<and> llm (agent st') = llm (agent st)
       \<and> (\<exists>new. store (memory (agent st')) = store (memory (agent st)) @ new
              \<and> length new \<le> length ss \<and> (f = Next \<longrightarrow> length new = length ss)
              \<and> map record_step new = map Some (take (length new) ss)
              \<and> list_all (\<lambda>r. record_type r \<in> {Some ''final_answer'', Some ''tool'', Some ''program''}) new)
       \<and> (\<forall>v. f = Return v \<longrightarrow>
            (\<exists>p m w1 w2 resp. llm (agent st) p m w1 = (Inr resp, w2)
               \<and> parse_llm_response resp = \<lparr>action = ''answer'', payload = v\<rparr>))"
  using assms
proof (induction ss arbitrary: st)
  case Nil
  then show ?case by auto
next
  case (Cons i ss)
  obtain f1 st1 where it: "iteration repr question i st = (f1, st1)"
    by (cases "iteration repr question i st")
  from iteration_inv [OF it] obtain rs where
    nb: "f1 \<noteq> Break" and l1: "llm (agent st1) = llm (agent st)"
    and m1: "store (memory (agent st1)) = store (memory (agent st)) @ rs"
    and n1: "length rs \<le> 1" "f1 = Next \<longrightarrow> length rs = 1"
    and s1: "map record_step rs = replicate (length rs) (Some i)"
    and t1: "list_all (\<lambda>r. record_type r \<in> {Some ''final_answer'', Some ''tool'', Some ''program''}) rs"
    and r1: "\<forall>v. f1 = Return v \<longrightarrow>
            (\<exists>p m w1 w2 resp. llm (agent st) p m w1 = (Inr resp, w2)
               \<and> parse_llm_response resp = \<lparr>action = ''answer'', payload = v\<rparr>)"
    by blast
  show ?case
  proof (cases "f1 = Next")
    case True
    with it Cons.prems have rec: "run_loop repr question ss st1 = (f, st')"
      by simp
    from True n1 obtain r where rs: "rs = [r]"
      by (cases rs) auto
    from Cons.IH [OF rec] obtain new where
      a: "f \<noteq> Break" "llm (agent st') = llm (agent st1)"
      and m: "store (memory (agent st')) = store (memory (agent st1)) @ new"
      and n: "length new \<le> length ss" "f = Next \<longrightarrow> length new = length ss"
      and s: "map record_step new = map Some (take (length new) ss)"
      and t: "list_all (\<lambda>r. record_type r \<in> {Some ''final_answer'', Some ''tool'', Some ''program''}) new"
      and r: "\<forall>v. f = Return v \<longrightarrow>
            (\<exists>p m w1 w2 resp. llm (agent st1) p m w1 = (Inr resp, w2)
               \<and> parse_llm_response resp = \<lparr>action = ''answer'', payload = v\<rparr>)"
      by blast
    have "store (memory (agent st')) = store (memory (agent st)) @ (r # new)"
      by (simp add: m m1 rs)
    moreover have "length (r # new) \<le> length (i # ss)" "f = Next \<longrightarrow> length (r # new) = length (i # ss)"
      using n by simp_all
    moreover have "map record_step (r # new) = map Some (take (length (r # new)) (i # ss))"
      using s s1 by (simp add: rs)
    moreover have "list_all (\<lambda>r. record_type r \<in> {Some ''final_answer'', Some ''tool'', Some ''program''}) (r # new)"
      using t t1 by (simp add: rs)
    ultimately show ?thesis
      using a r l1 by (simp only:) blast
  next
    case False
    with it Cons.prems have eq: "f = f1" "st' = st1"
      by (cases f1; simp)+
    have "length rs \<le> length (i # ss)" using n1 by simp
    moreover have "map record_step rs = map Some (take (length rs) (i # ss))"
      using s1 n1 by (cases rs) auto
    ultimately show ?thesis
      using nb l1 m1 t1 r1 False unfolding eq by blast
  qed
qed

lemma take_py_range: "k \<le> length (py_range n) \<Longrightarrow> take k (py_range n) = map int [0..<k]"
  by (simp add: py_range_def take_map min_def)

text \<open>
  Claim C1, as the code has it. The records a run adds to the memory are the records of
  the passes of the loop, followed by the \<open>timeout\<close> record when the run ends without an
  answer. The record at position \<open>i\<close> among those of the loop has type \<open>final_answer\<close>,
  \<open>tool\<close> or \<open>program\<close> and carries \<open>step = i\<close>, the index of the pass that added
  it, so the steps increase in the order of insertion. The \<open>timeout\<close> record has no
  \<open>step\<close> field.
\<close>

theorem run_records_steps:
  "\<exists>new tail is.
     store (memory (agent (snd (run repr ag question w)))) = store (memory ag) @ new @ tail
     \<and> map record_step new = map Some is
     \<and> is = map int [0..<length new] \<and> sorted is
     \<and> list_all (\<lambda>r. record_type r \<in> {Some ''final_answer'', Some ''tool'', Some ''program''}) new
     \<and> (tail = [] \<or> tail = [timeout_record])
     \<and> record_type timeout_record = Some ''timeout''
     \<and> record_step timeout_record = None"
proof -
  let ?st0 = "\<lparr>agent = ag, steps = [], world = w, llm_calls = []\<rparr>"
  obtain f st' where loop: "run_loop repr question (py_range (max_steps ag)) ?st0 = (f, st')"
    by (cases "run_loop repr question (py_range (max_steps ag)) ?st0")
  from run_loop_inv [OF loop] obtain new where
    m: "store (memory (agent st')) = store (memory (agent ?st0)) @ new"
    and n: "length new \<le> length (py_range (max_steps ag))"
    and s: "map record_step new = map Some (take (length new) (py_range (max_steps ag)))"
    and t: "list_all (\<lambda>r. record_type r \<in> {Some ''final_answer'', Some ''tool'', Some ''program''}) new"
    by blast
  have s': "map record_step new = map Some (map int [0..<length new])"
    using s take_py_range [OF n] by simp
  have srt: "sorted (map int [0..<length new])"
    by (simp add: sorted_map)
  have m': "store (memory (agent st')) = store (memory ag) @ new"
    using m by simp
  have "\<exists>tail. store (memory (agent (snd (run repr ag question w)))) = store (memory ag) @ new @ tail
          \<and> (tail = [] \<or> tail = [timeout_record])"
    unfolding run_def loop
    by (cases f) (simp_all add: m' memory_add_def Memory_add_def)
  moreover have "record_type timeout_record = Some ''timeout''" "record_step timeout_record = None"
    by (simp_all add: record_type_def record_step_def timeout_record_def)
  ultimately show ?thesis
    using s' srt t by blast
qed

text \<open>
  Claim C1 as stated fails on the \<open>timeout\<close> record: after a run of one step that
  ends without an answer, the last record of the memory is the \<open>timeout\<close> record, and
  it has no \<open>step\<close> key.
\<close>

theorem timeout_record_without_step:
  "last (store (memory (agent (snd (run stub_repr
       (KGAgent_init (stub_llm ''RUN x'') None None None (Some 1)) ''q'' 0))))) = timeout_record
   \<and> has_key (last (store (memory (agent (snd (run stub_repr
       (KGAgent_init (stub_llm ''RUN x'') None None None (Some 1)) ''q'' 0)))))) ''step'' = False"
  by (simp add: run_def py_range_def KGAgent_init_def iteration_def stub_llm_def Let_def
        parse_llm_response_def py_string_defs dispatch_def run_program_branch_def memory_add_def
        Memory_add_def Memory_init_def timeout_record_def has_key_def)

lemma run_first_answer:
  assumes "0 < max_steps ag"
    and "llm ag (format_prompt repr question (state_dict [])) [(''step'', VInt 0)] w = (Inr response, w')"
    and "parse_llm_response response = \<lparr>action = ''answer'', payload = v\<rparr>"
  shows "fst (run repr ag question w) = Inr v"
proof -
  let ?st0 = "\<lparr>agent = ag, steps = [], world = w, llm_calls = []\<rparr>"
  have "fst (iteration repr question 0 ?st0) = Return v"
    using assms(2) by (simp add: iteration_response assms(3) dispatch_answer)
  then show ?thesis
    unfolding run_def py_range_pos [OF assms(1)]
    by (cases "iteration repr question 0 ?st0") simp
qed

text \<open>
  Claim C9. The parser only produces the action tags \<open>answer\<close>, \<open>call_tool\<close> and
  \<open>run_program\<close>; hence neither a pass nor the loop is ever left through the final
  \<open>break\<close>, and a value returned by \<open>run\<close> is either the fixed summary or the payload
  of an answer decision parsed from a response of the language model.
\<close>

theorem run_outcomes:
  "action (parse_llm_response response) \<in> {''answer'', ''call_tool'', ''run_program''}
   \<and> fst (iteration repr question step st) \<noteq> Break
   \<and> fst (run_loop repr question ss st) \<noteq> Break
   \<and> (\<forall>v st'. run repr ag question w = (Inr v, st') \<longrightarrow>
         v = VStr summary
         \<or> (\<exists>p m w1 w2 resp. llm ag p m w1 = (Inr resp, w2)
               \<and> parse_llm_response resp = \<lparr>action = ''answer'', payload = v\<rparr>))"
proof (intro conjI allI impI)
  show "action (parse_llm_response response) \<in> {''answer'', ''call_tool'', ''run_program''}"
    by (cases response rule: parse_cases) simp_all
next
  show "fst (iteration repr question step st) \<noteq> Break"
    using iteration_inv [of repr question step st] by (cases "iteration repr question step st") simp
next
  show "fst (run_loop repr question ss st) \<noteq> Break"
    using run_loop_inv [of repr question ss st] by (cases "run_loop repr question ss st") simp
next
  fix v st'
  assume r: "run repr ag question w = (Inr v, st')"
  let ?st0 = "\<lparr>agent = ag, steps = [], world = w, llm_calls = []\<rparr>"
  obtain f st1 where loop: "run_loop repr question (py_range (max_steps ag)) ?st0 = (f, st1)"
    by (cases "run_loop repr question (py_range (max_steps ag)) ?st0")
  from run_loop_inv [OF loop] have
    ret: "\<forall>v. f = Return v \<longrightarrow>
            (\<exists>p m w1 w2 resp. llm ag p m w1 = (Inr resp, w2)
               \<and> parse_llm_response resp = \<lparr>action = ''answer'', payload = v\<rparr>)"
    by simp
  from r have "f = Return v \<or> v = VStr summary"
    unfolding run_def loop by (cases f) simp_all
  with ret show "v = VStr summary
         \<or> (\<exists>p m w1 w2 resp. llm ag p m w1 = (Inr resp, w2)
               \<and> parse_llm_response resp = \<lparr>action = ''answer'', payload = v\<rparr>)"
    by blast
qed

theorem run_outcomes_witness:
  "fst (run stub_repr (KGAgent_init (stub_llm ''ANSWER: demo'') None None None None) ''q'' 0)
     = Inr (VStr ''demo'')
   \<and> VStr ''demo'' \<noteq> VStr summary
   \<and> (\<exists>p m w1 w2 resp.
        llm (KGAgent_init (stub_llm ''ANSWER: demo'') None None None None) p m w1 = (Inr resp, w2)
        \<and> parse_llm_response resp = \<lparr>action = ''answer'', payload = VStr ''demo''\<rparr>)
   \<and> fst (run_loop stub_repr ''q'' [0]
        \<lparr>agent = KGAgent_init (stub_llm ''ANSWER: demo'') None None None None, steps = [],
         world = 0, llm_calls = []\<rparr>) \<noteq> Break"
proof -
  let ?ag = "KGAgent_init (stub_llm ''ANSWER: demo'') None None None None"
  have h1: "0 < max_steps ?ag"
    by (simp add: KGAgent_init_def)
  have h2: "llm ?ag (format_prompt stub_repr ''q'' (state_dict [])) [(''step'', VInt 0)] 0
              = (Inr ''ANSWER: demo'', 1)"
    by (simp add: KGAgent_init_def stub_llm_def)
  have p: "parse_llm_response ''ANSWER: demo'' = \<lparr>action = ''answer'', payload = VStr ''demo''\<rparr>"
    by (simp add: parse_llm_response_def py_string_defs Let_def)
  have r': "fst (run stub_repr ?ag ''q'' 0) = Inr (VStr ''demo'')"
    using h1 h2 p by (rule run_first_answer)
  then obtain st' where r: "run stub_repr ?ag ''q'' 0 = (Inr (VStr ''demo''), st')"
    by (cases "run stub_repr ?ag ''q'' 0") simp
  have ne: "VStr ''demo'' \<noteq> VStr summary"
    by (simp add: summary_def)
  note o = run_outcomes [of "''x''" stub_repr "''q''" 0
      "\<lparr>agent = ?ag, steps = [], world = 0, llm_calls = []\<rparr>" "[0]" ?ag 0]
  from o r ne have "\<exists>p m w1 w2 resp. llm ?ag p m w1 = (Inr resp, w2)
        \<and> parse_llm_response resp = \<lparr>action = ''answer'', payload = VStr ''demo''\<rparr>"
    by blast
  moreover from o have "fst (run_loop stub_repr ''q'' [0]
        \<lparr>agent = ?ag, steps = [], world = 0, llm_calls = []\<rparr>) \<noteq> Break"
    by blast
  ultimately show ?thesis using r' ne by blast
qed

text \<open>Facts for the pass that calls a tool.\<close>

lemma run_loop_append:
  assumes "run_loop repr question xs st0 = (Next, st)"
  shows "run_loop repr question (xs @ ys) st0 = run_loop repr question ys st"
  using assms
proof (induction xs arbitrary: st0)
  case Nil
  then show ?case by simp
next
  case (Cons i xs)
  obtain f1 st1 where it: "iteration repr question i st0 = (f1, st1)"
    by (cases "iteration repr question i st0")
  show ?case
  proof (cases "f1 = Next")
    case True
    with it Cons.prems have "run_loop repr question xs st1 = (Next, st)"
      by simp
    from Cons.IH [OF this] it True show ?thesis
      by simp
  next
    case False
    with it Cons.prems show ?thesis
      by (cases f1) simp_all
  qed
qed

lemma call_None:
  assumes "tools tb (VStr t) = None"
    and "call repr tb (VStr t) args kwargs w = (Inl e, w', tb')"
  shows "is_Exception e \<and> (\<exists>s. exc_str e = StrReturns s)"
  using assms by (auto simp: call_def KeyError_def)

lemma stub_call_response:
  "llm (agent \<lparr>agent = KGAgent_init (stub_llm r) None (Some stub_toolbox) None (Some 1),
                steps = [], world = 0, llm_calls = []\<rparr>)
     (format_prompt stub_repr ''q''
        (state_dict (steps \<lparr>agent = KGAgent_init (stub_llm r) None (Some stub_toolbox) None (Some 1),
                             steps = [], world = 0, llm_calls = []\<rparr>)))
     [(''step'', VInt 0)]
     (world \<lparr>agent = KGAgent_init (stub_llm r) None (Some stub_toolbox) None (Some 1),
              steps = [], world = 0, llm_calls = []\<rparr>) = (Inr r, 1)"
  by (simp add: KGAgent_init_def stub_llm_def)

lemma stub_first_step:
  "py_range (max_steps (KGAgent_init l None (Some stub_toolbox) None (Some 1))) = [] @ 0 # []
   \<and> run_loop stub_repr ''q'' []
        \<lparr>agent = KGAgent_init l None (Some stub_toolbox) None (Some 1),
         steps = [], world = 0, llm_calls = []\<rparr>
      = (Next, \<lparr>agent = KGAgent_init l None (Some stub_toolbox) None (Some 1),
                steps = [], world = 0, llm_calls = []\<rparr>)"
  by (simp add: py_range_def KGAgent_init_def)

text \<open>
  Claim C2, as the code has it. Let a response parse to a tool call and let
  \<open>Toolbox.call\<close> raise \<open>e\<close>. When \<open>e\<close> is an instance of \<^verbatim>\<open>Exception\<close> and
  \<^verbatim>\<open>str(e)\<close> returns a string \<open>s\<close>, the run does not propagate \<open>e\<close>: the step's \<open>out\<close> is
  \<^verbatim>\<open>{'error': s}\<close>, a \<open>tool\<close> record is appended to the state's steps and to the
  memory, and the loop goes on with the next step. The lookup miss is such a case: its
  \<^verbatim>\<open>KeyError\<close> is an instance of \<^verbatim>\<open>Exception\<close> whose \<^verbatim>\<open>str\<close> returns. When \<open>e\<close> is not
  an instance of \<^verbatim>\<open>Exception\<close>, the run ends by raising \<open>e\<close>; when it is one and
  \<^verbatim>\<open>str(e)\<close> raises \<open>e'\<close>, the run ends by raising \<open>e'\<close>; in both cases nothing is added
  to the steps or to the memory. The statements about the run hold for a pass that the
  run reaches: the steps before it all went on to the next one.
\<close>

theorem tool_exception_contained:
  assumes "llm (agent st) (format_prompt repr question (state_dict (steps st)))
             [(''step'', VInt step)] (world st) = (Inr response, w1)"
    and "parse_llm_response response =
           \<lparr>action = ''call_tool'', payload = VDict [(''tool'', VStr t), (''args'', VStr a)]\<rparr>"
    and "call repr (toolbox (agent st)) (VStr t) [VStr a] [] w1 = (Inl e, w2, tb2)"
  shows "(is_Exception e \<and> exc_str e = StrReturns s \<longrightarrow>
            (\<exists>st'. iteration repr question step st = (Next, st')
               \<and> run_loop repr question (step # rest) st = run_loop repr question rest st'
               \<and> steps st' = steps st @
                    [[(''action'', VStr ''call_tool''), (''tool'', VStr t),
                      (''out'', VDict [(''error'', VStr s)])]]
               \<and> store (memory (agent st')) = store (memory (agent st)) @
                    [[(''type'', VStr ''tool''), (''tool'', VStr t),
                      (''out'', VDict [(''error'', VStr s)]), (''step'', VInt step)]]
               \<and> world st' = w2
               \<and> (\<forall>ag w xs.
                     py_range (max_steps ag) = xs @ step # rest
                     \<and> run_loop repr question xs
                          \<lparr>agent = ag, steps = [], world = w, llm_calls = []\<rparr> = (Next, st)
                     \<longrightarrow> run_loop repr question (py_range (max_steps ag))
                           \<lparr>agent = ag, steps = [], world = w, llm_calls = []\<rparr>
                         = run_loop repr question rest st')))
       \<and> (\<not> is_Exception e \<longrightarrow>
            (\<exists>st'. iteration repr question step st = (Raise e, st')
               \<and> run_loop repr question (step # rest) st = (Raise e, st')
               \<and> steps st' = steps st
               \<and> store (memory (agent st')) = store (memory (agent st))
               \<and> (\<forall>ag w xs.
                     py_range (max_steps ag) = xs @ step # rest
                     \<and> run_loop repr question xs
                          \<lparr>agent = ag, steps = [], world = w, llm_calls = []\<rparr> = (Next, st)
                     \<longrightarrow> run repr ag question w = (Inl e, st'))))
       \<and> (is_Exception e \<and> exc_str e = StrRaises e' \<longrightarrow>
            (\<exists>st'. iteration repr question step st = (Raise e', st')
               \<and> run_loop repr question (step # rest) st = (Raise e', st')
               \<and> steps st' = steps st
               \<and> store (memory (agent st')) = store (memory (agent st))
               \<and> (\<forall>ag w xs.
                     py_range (max_steps ag) = xs @ step # rest
                     \<and> run_loop repr question xs
                          \<lparr>agent = ag, steps = [], world = w, llm_calls = []\<rparr> = (Next, st)
                     \<longrightarrow> run repr ag question w = (Inl e', st'))))
       \<and> (tools (toolbox (agent st)) (VStr t) = None \<longrightarrow>
            is_Exception e \<and> (\<exists>s. exc_str e = StrReturns s))"
proof (intro conjI impI)
  assume h: "is_Exception e \<and> exc_str e = StrReturns s"
  then have tc: "try_call (Inl e) = Inr (VDict [(''error'', VStr s)])"
    by (simp add: try_call_def)
  obtain st' where it: "iteration repr question step st = (Next, st')"
    and s: "steps st' = steps st @
                [[(''action'', VStr ''call_tool''), (''tool'', VStr t),
                  (''out'', VDict [(''error'', VStr s)])]]"
    and m: "store (memory (agent st')) = store (memory (agent st)) @
                [[(''type'', VStr ''tool''), (''tool'', VStr t),
                  (''out'', VDict [(''error'', VStr s)]), (''step'', VInt step)]]"
    and w: "world st' = w2"
    using assms(3)
    by (simp add: iteration_response [OF assms(1)] assms(2) dispatch_call_tool tc
          memory_add_def Memory_add_def)
  have l: "run_loop repr question (step # rest) st = run_loop repr question rest st'"
    by (simp add: it)
  have r: "\<forall>ag w xs.
             py_range (max_steps ag) = xs @ step # rest
             \<and> run_loop repr question xs \<lparr>agent = ag, steps = [], world = w, llm_calls = []\<rparr> = (Next, st)
             \<longrightarrow> run_loop repr question (py_range (max_steps ag))
                   \<lparr>agent = ag, steps = [], world = w, llm_calls = []\<rparr>
                 = run_loop repr question rest st'"
    using l by (auto simp: run_loop_append)
  from it l s m w r
  show "\<exists>st'. iteration repr question step st = (Next, st')
               \<and> run_loop repr question (step # rest) st = run_loop repr question rest st'
               \<and> steps st' = steps st @
                    [[(''action'', VStr ''call_tool''), (''tool'', VStr t),
                      (''out'', VDict [(''error'', VStr s)])]]
               \<and> store (memory (agent st')) = store (memory (agent st)) @
                    [[(''type'', VStr ''tool''), (''tool'', VStr t),
                      (''out'', VDict [(''error'', VStr s)]), (''step'', VInt step)]]
               \<and> world st' = w2
               \<and> (\<forall>ag w xs.
                     py_range (max_steps ag) = xs @ step # rest
                     \<and> run_loop repr question xs
                          \<lparr>agent = ag, steps = [], world = w, llm_calls = []\<rparr> = (Next, st)
                     \<longrightarrow> run_loop repr question (py_range (max_steps ag))
                           \<lparr>agent = ag, steps = [], world = w, llm_calls = []\<rparr>
                         = run_loop repr question rest st')"
    by blast
next
  assume h: "\<not> is_Exception e"
  then have tc: "try_call (Inl e) = Inl e"
    by (simp add: try_call_def)
  obtain st' where it: "iteration repr question step st = (Raise e, st')"
    and s: "steps st' = steps st"
    and m: "store (memory (agent st')) = store (memory (agent st))"
    using assms(3)
    by (simp add: iteration_response [OF assms(1)] assms(2) dispatch_call_tool tc)
  have l: "run_loop repr question (step # rest) st = (Raise e, st')"
    by (simp add: it)
  have r: "\<forall>ag w xs.
             py_range (max_steps ag) = xs @ step # rest
             \<and> run_loop repr question xs \<lparr>agent = ag, steps = [], world = w, llm_calls = []\<rparr> = (Next, st)
             \<longrightarrow> run repr ag question w = (Inl e, st')"
    using l by (auto simp: run_def run_loop_append)
  from it l s m r
  show "\<exists>st'. iteration repr question step st = (Raise e, st')
               \<and> run_loop repr question (step # rest) st = (Raise e, st')
               \<and> steps st' = steps st
               \<and> store (memory (agent st')) = store (memory (agent st))
               \<and> (\<forall>ag w xs.
                     py_range (max_steps ag) = xs @ step # rest
                     \<and> run_loop repr question xs
                          \<lparr>agent = ag, steps = [], world = w, llm_calls = []\<rparr> = (Next, st)
                     \<longrightarrow> run repr ag question w = (Inl e, st'))"
    by blast
next
  assume h: "is_Exception e \<and> exc_str e = StrRaises e'"
  then have tc: "try_call (Inl e) = Inl e'"
    by (simp add: try_call_def)
  obtain st' where it: "iteration repr question step st = (Raise e', st')"
    and s: "steps st' = steps st"
    and m: "store (memory (agent st')) = store (memory (agent st))"
    using assms(3)
    by (simp add: iteration_response [OF assms(1)] assms(2) dispatch_call_tool tc)
  have l: "run_loop repr question (step # rest) st = (Raise e', st')"
    by (simp add: it)
  have r: "\<forall>ag w xs.
             py_range (max_steps ag) = xs @ step # rest
             \<and> run_loop repr question xs \<lparr>agent = ag, steps = [], world = w, llm_calls = []\<rparr> = (Next, st)
             \<longrightarrow> run repr ag question w = (Inl e', st')"
    using l by (auto simp: run_def run_loop_append)
  from it l s m r
  show "\<exists>st'. iteration repr question step st = (Raise e', st')
               \<and> run_loop repr question (step # rest) st = (Raise e', st')
               \<and> steps st' = steps st
               \<and> store (memory (agent st')) = store (memory (agent st))
               \<and> (\<forall>ag w xs.
                     py_range (max_steps ag) = xs @ step # rest
                     \<and> run_loop repr question xs
                          \<lparr>agent = ag, steps = [], world = w, llm_calls = []\<rparr> = (Next, st)
                     \<longrightarrow> run repr ag question w = (Inl e', st'))"
    by blast
next
  assume "tools (toolbox (agent st)) (VStr t) = None"
  from call_None [OF this assms(3)]
  show "is_Exception e" and "\<exists>s. exc_str e = StrReturns s"
    by blast+
qed

theorem tool_exception_contained_witness:
  "parse_llm_response ''CALL fail x'' =
        \<lparr>action = ''call_tool'', payload = VDict [(''tool'', VStr ''fail''), (''args'', VStr ''x'')]\<rparr>
   \<and> call stub_repr stub_toolbox (VStr ''fail'') [VStr ''x''] [] 1
        = (Inl (Exc ''ValueError'' (StrReturns ''bad input'')), 2, stub_toolbox)
   \<and> is_Exception (Exc ''ValueError'' (StrReturns ''bad input''))
   \<and> (\<exists>st'. iteration stub_repr ''q'' 0
          \<lparr>agent = KGAgent_init (stub_llm ''CALL fail x'') None (Some stub_toolbox) None (Some 1),
           steps = [], world = 0, llm_calls = []\<rparr> = (Next, st')
        \<and> store (memory (agent st')) =
            [[(''type'', VStr ''tool''), (''tool'', VStr ''fail''),
              (''out'', VDict [(''error'', VStr ''bad input'')]), (''step'', VInt 0)]]
        \<and> world st' = 2)
   \<and> tools stub_toolbox (VStr ''missing'') = None
   \<and> call stub_repr stub_toolbox (VStr ''missing'') [VStr ''x''] [] 1
        = (Inl (Exc ''KeyError'' (StrReturns ''<repr>'')), 1, stub_toolbox)
   \<and> (\<exists>st'. iteration stub_repr ''q'' 0
          \<lparr>agent = KGAgent_init (stub_llm ''CALL missing x'') None (Some stub_toolbox) None (Some 1),
           steps = [], world = 0, llm_calls = []\<rparr> = (Next, st')
        \<and> store (memory (agent st')) =
            [[(''type'', VStr ''tool''), (''tool'', VStr ''missing''),
              (''out'', VDict [(''error'', VStr ''<repr>'')]), (''step'', VInt 0)]])
   \<and> call stub_repr stub_toolbox (VStr ''interrupt'') [VStr ''x''] [] 1
        = (Inl (BaseExc ''KeyboardInterrupt'' (StrReturns [])), 2, stub_toolbox)
   \<and> fst (run stub_repr
        (KGAgent_init (stub_llm ''CALL interrupt x'') None (Some stub_toolbox) None (Some 1)) ''q'' 0)
        = Inl (BaseExc ''KeyboardInterrupt'' (StrReturns []))
   \<and> call stub_repr stub_toolbox (VStr ''mute'') [VStr ''x''] [] 1
        = (Inl (Exc ''MuteError'' (StrRaises (Exc ''RuntimeError'' (StrReturns ''no message'')))),
           2, stub_toolbox)
   \<and> fst (run stub_repr
        (KGAgent_init (stub_llm ''CALL mute x'') None (Some stub_toolbox) None (Some 1)) ''q'' 0)
        = Inl (Exc ''RuntimeError'' (StrReturns ''no message''))"
proof -
  let ?ag = "\<lambda>r. KGAgent_init (stub_llm r) None (Some stub_toolbox) None (Some 1)"
  let ?st = "\<lambda>r. \<lparr>agent = ?ag r, steps = [], world = 0::nat, llm_calls = []\<rparr>"
  have tb: "\<And>r. toolbox (agent (?st r)) = stub_toolbox"
    by (simp add: KGAgent_init_def)
  have mem: "\<And>r. store (memory (agent (?st r))) = []"
    by (simp add: KGAgent_init_def Memory_init_def)
  have p1: "parse_llm_response ''CALL fail x'' =
        \<lparr>action = ''call_tool'', payload = VDict [(''tool'', VStr ''fail''), (''args'', VStr ''x'')]\<rparr>"
    by (simp add: parse_llm_response_def py_string_defs Let_def numeral_2_eq_2)
  have c1: "call stub_repr stub_toolbox (VStr ''fail'') [VStr ''x''] [] 1
        = (Inl (Exc ''ValueError'' (StrReturns ''bad input'')), 2, stub_toolbox)"
    by (simp add: call_def stub_toolbox_def raising_tool_def)
  have c1': "call stub_repr (toolbox (agent (?st ''CALL fail x''))) (VStr ''fail'') [VStr ''x''] [] 1
        = (Inl (Exc ''ValueError'' (StrReturns ''bad input'')), 2, stub_toolbox)"
    unfolding tb by (rule c1)
  have e1: "is_Exception (Exc ''ValueError'' (StrReturns ''bad input''))
            \<and> exc_str (Exc ''ValueError'' (StrReturns ''bad input'')) = StrReturns ''bad input''"
    by simp
  from tool_exception_contained [OF stub_call_response p1 c1', of "''bad input''" "[]"] e1
  obtain st1 where "iteration stub_repr ''q'' 0 (?st ''CALL fail x'') = (Next, st1)"
    and "store (memory (agent st1)) = store (memory (agent (?st ''CALL fail x''))) @
            [[(''type'', VStr ''tool''), (''tool'', VStr ''fail''),
              (''out'', VDict [(''error'', VStr ''bad input'')]), (''step'', VInt 0)]]"
    and "world st1 = 2"
    by blast
  then have r1: "\<exists>st'. iteration stub_repr ''q'' 0 (?st ''CALL fail x'') = (Next, st')
        \<and> store (memory (agent st')) =
            [[(''type'', VStr ''tool''), (''tool'', VStr ''fail''),
              (''out'', VDict [(''error'', VStr ''bad input'')]), (''step'', VInt 0)]]
        \<and> world st' = 2"
    unfolding mem by simp
  have p2: "parse_llm_response ''CALL missing x'' =
        \<lparr>action = ''call_tool'', payload = VDict [(''tool'', VStr ''missing''), (''args'', VStr ''x'')]\<rparr>"
    by (simp add: parse_llm_response_def py_string_defs Let_def numeral_2_eq_2)
  have n2: "tools stub_toolbox (VStr ''missing'') = None"
    by (simp add: stub_toolbox_def)
  have c2: "call stub_repr stub_toolbox (VStr ''missing'') [VStr ''x''] [] 1
        = (Inl (Exc ''KeyError'' (StrReturns ''<repr>'')), 1, stub_toolbox)"
    by (simp add: call_def stub_toolbox_def KeyError_def stub_repr_def)
  have c2': "call stub_repr (toolbox (agent (?st ''CALL missing x''))) (VStr ''missing'') [VStr ''x''] [] 1
        = (Inl (Exc ''KeyError'' (StrReturns ''<repr>'')), 1, stub_toolbox)"
    unfolding tb by (rule c2)
  have e2: "is_Exception (Exc ''KeyError'' (StrReturns ''<repr>''))
            \<and> exc_str (Exc ''KeyError'' (StrReturns ''<repr>'')) = StrReturns ''<repr>''"
    by simp
  from tool_exception_contained [OF stub_call_response p2 c2', of "''<repr>''" "[]"] e2
  obtain st2 where "iteration stub_repr ''q'' 0 (?st ''CALL missing x'') = (Next, st2)"
    and "store (memory (agent st2)) = store (memory (agent (?st ''CALL missing x''))) @
            [[(''type'', VStr ''tool''), (''tool'', VStr ''missing''),
              (''out'', VDict [(''error'', VStr ''<repr>'')]), (''step'', VInt 0)]]"
    by blast
  then have r2: "\<exists>st'. iteration stub_repr ''q'' 0 (?st ''CALL missing x'') = (Next, st')
        \<and> store (memory (agent st')) =
            [[(''type'', VStr ''tool''), (''tool'', VStr ''missing''),
              (''out'', VDict [(''error'', VStr ''<repr>'')]), (''step'', VInt 0)]]"
    unfolding mem by simp
  have p3: "parse_llm_response ''CALL interrupt x'' =
        \<lparr>action = ''call_tool'', payload = VDict [(''tool'', VStr ''interrupt''), (''args'', VStr ''x'')]\<rparr>"
    by (simp add: parse_llm_response_def py_string_defs Let_def numeral_2_eq_2)
  have c3: "call stub_repr stub_toolbox (VStr ''interrupt'') [VStr ''x''] [] 1
        = (Inl (BaseExc ''KeyboardInterrupt'' (StrReturns [])), 2, stub_toolbox)"
    by (simp add: call_def stub_toolbox_def raising_tool_def)
  have c3': "call stub_repr (toolbox (agent (?st ''CALL interrupt x''))) (VStr ''interrupt'') [VStr ''x''] [] 1
        = (Inl (BaseExc ''KeyboardInterrupt'' (StrReturns [])), 2, stub_toolbox)"
    unfolding tb by (rule c3)
  have e3: "\<not> is_Exception (BaseExc ''KeyboardInterrupt'' (StrReturns []))"
    by simp
  from tool_exception_contained [OF stub_call_response p3 c3', of _ "[]"] e3
    stub_first_step [of "stub_llm ''CALL interrupt x''"]
  have r3: "fst (run stub_repr (?ag ''CALL interrupt x'') ''q'' 0)
        = Inl (BaseExc ''KeyboardInterrupt'' (StrReturns []))"
    by (metis fst_conv)
  have p4: "parse_llm_response ''CALL mute x'' =
        \<lparr>action = ''call_tool'', payload = VDict [(''tool'', VStr ''mute''), (''args'', VStr ''x'')]\<rparr>"
    by (simp add: parse_llm_response_def py_string_defs Let_def numeral_2_eq_2)
  have c4: "call stub_repr stub_toolbox (VStr ''mute'') [VStr ''x''] [] 1
        = (Inl (Exc ''MuteError'' (StrRaises (Exc ''RuntimeError'' (StrReturns ''no message'')))),
           2, stub_toolbox)"
    by (simp add: call_def stub_toolbox_def raising_tool_def)
  have c4': "call stub_repr (toolbox (agent (?st ''CALL mute x''))) (VStr ''mute'') [VStr ''x''] [] 1
        = (Inl (Exc ''MuteError'' (StrRaises (Exc ''RuntimeError'' (StrReturns ''no message'')))),
           2, stub_toolbox)"
    unfolding tb by (rule c4)
  have e4: "is_Exception (Exc ''MuteError'' (StrRaises (Exc ''RuntimeError'' (StrReturns ''no message''))))
            \<and> exc_str (Exc ''MuteError'' (StrRaises (Exc ''RuntimeError'' (StrReturns ''no message''))))
                = StrRaises (Exc ''RuntimeError'' (StrReturns ''no message''))"
    by simp
  from tool_exception_contained [OF stub_call_response p4 c4', of _ "[]"
      "Exc ''RuntimeError'' (StrReturns ''no message'')"] e4
    stub_first_step [of "stub_llm ''CALL mute x''"]
  have r4: "fst (run stub_repr (?ag ''CALL mute x'') ''q'' 0)
        = Inl (Exc ''RuntimeError'' (StrReturns ''no message''))"
    by (metis fst_conv)
  from p1 c1 e1 r1 n2 c2 r2 c3 r3 c4 r4 show ?thesis
    by blast
qed

text \<open>
  Claim C2 as stated fails for an exception that derives from \<^verbatim>\<open>BaseException\<close> only:
  a tool that raises \<^verbatim>\<open>KeyboardInterrupt\<close> ends the run with that exception, and no
  record is added to the memory.
\<close>

theorem tool_interrupt_propagates:
  "fst (run stub_repr
          (KGAgent_init (stub_llm ''CALL interrupt x'') None (Some stub_toolbox) None (Some 1)) ''q'' 0)
     = Inl (BaseExc ''KeyboardInterrupt'' (StrReturns []))
   \<and> store (memory (agent (snd (run stub_repr
          (KGAgent_init (stub_llm ''CALL interrupt x'') None (Some stub_toolbox) None (Some 1)) ''q'' 0))))
     = []"
  by (simp add: run_def py_range_def KGAgent_init_def iteration_def stub_llm_def Let_def
        parse_llm_response_def py_string_defs numeral_2_eq_2 dispatch_def call_tool_branch_def
        call_def stub_toolbox_def raising_tool_def try_call_def Memory_init_def)

end
